theory Spec2Isabelle
  imports Complex_Main
begin

section \<open>The application store of the rates-clearance portal (server/storage.ts)\<close>

text \<open>
  The class \<open>MySQLStorage\<close> keeps clearance applications and administrator accounts in
  two tables of a relational datastore. The embedding below follows the class method by
  method. What the methods read from their environment is passed in as an argument:
  \<^item> \<open>randomUUID()\<close> is the argument \<open>uuid\<close>;
  \<^item> \<open>Math.random()\<close> is the argument \<open>rnd\<close>: a double \<open>r\<close> with \<open>0 \<le> r < 1\<close>, given
    by the real number it stands for;
  \<^item> \<open>new Date()\<close> is the argument \<open>now\<close>, in milliseconds.
  The datastore is modelled by the two tables it holds, each a list of rows in insertion
  order, with the key constraints and the column types the \<open>CREATE TABLE\<close> statements
  declare. A \<open>DATETIME\<close> column holds whole seconds, so a \<open>Date\<close> written to it is
  rounded. Strings are compared by equality, and a JSON column holds either \<open>NULL\<close> or the
  array that \<open>JSON.stringify\<close> encoded, so that \<open>JSON.parse\<close> returns the array that was
  written.
\<close>

subsection \<open>Data\<close>

text \<open>
  A \<open>Date\<close> is a number of milliseconds; the value of a \<open>DATETIME\<close> column is a number of
  seconds.
\<close>

type_synonym date = nat

type_synonym datetime = nat

datatype status = Submitted | Under_review | Approved | Rejected

datatype error = Connection_not_established | Duplicate_entry

text \<open>
  Modelled from the spec: the types \<open>InsertAdmin\<close>, \<open>Admin\<close>, \<open>InsertApplication\<close> and
  \<open>Application\<close> are imported from \<open>@shared/schema\<close>, which is not part of the sources.
  Their fields are the ones the spec's data model lists and the methods of the class read
  and write. \<open>InsertApplication\<close> has the applicant's fields (the email, the documents and
  the uploaded documents optional); the store generates everything else. In particular the
  input has no \<open>id\<close> and no \<open>referenceNumber\<close>, so the spread \<open>...insertApplication\<close>
  in \<open>createApplication\<close> leaves the two generated fields written before it as they are.
\<close>

record InsertAdmin =
  ia_username :: string
  ia_password :: string
  ia_fullName :: string

record Admin =
  admin_id :: string
  username :: string
  password :: string
  admin_fullName :: string
  createdAt :: date

record InsertApplication =
  i_fullName :: string
  i_idNumber :: string
  i_phoneNumber :: string
  i_email :: "string option"
  i_propertyAddress :: string
  i_standNumber :: string
  i_propertyType :: string
  i_reason :: string
  i_documents :: "string list option"
  i_uploadedDocuments :: "string list option"

record Application =
  app_id :: string
  referenceNumber :: string
  fullName :: string
  idNumber :: string
  phoneNumber :: string
  email :: "string option"
  propertyAddress :: string
  standNumber :: string
  propertyType :: string
  reason :: string
  documents :: "string list"
  uploadedDocuments :: "string list"
  status :: status
  submittedDate :: date
  reviewDate :: "date option"
  completedDate :: "date option"
  adminNotes :: "string option"
  reviewedBy :: "string option"

text \<open>
  The rows of the two tables, one field per column of the \<open>CREATE TABLE\<close> statements; a
  column without \<open>NOT NULL\<close> is an option.
\<close>

record application_row =
  row_id :: string
  row_reference_number :: string
  row_full_name :: string
  row_id_number :: string
  row_phone_number :: string
  row_email :: "string option"
  row_property_address :: string
  row_stand_number :: string
  row_property_type :: string
  row_reason :: string
  row_documents :: "string list option"
  row_uploaded_documents :: "string list option"
  row_status :: status
  row_submitted_date :: datetime
  row_review_date :: "datetime option"
  row_completed_date :: "datetime option"
  row_admin_notes :: "string option"
  row_reviewed_by :: "string option"

record admin_row =
  arow_id :: string
  arow_username :: string
  arow_password :: string
  arow_full_name :: string
  arow_created_at :: datetime

text \<open>
  The state: whether \<open>this.connection\<close> is set, and the contents of the two tables behind
  it. A table that does not exist yet is the table without rows.
\<close>

record store =
  connection :: bool
  applications :: "application_row list"
  admins :: "admin_row list"

definition empty_store :: store where
  "empty_store = \<lparr>connection = False, applications = [], admins = []\<rparr>"

subsection \<open>JavaScript values\<close>

text \<open>\<open>x || []\<close> for an optional array: an array, also the empty one, is truthy.\<close>

definition or_empty :: "'a list option \<Rightarrow> 'a list" where
  "or_empty x = (case x of None \<Rightarrow> [] | Some xs \<Rightarrow> xs)"

text \<open>
  \<open>x || y\<close> for an optional string \<open>x\<close>: \<open>undefined\<close>, \<open>null\<close> and the empty string
  are falsy.
\<close>

definition truthy :: "string option \<Rightarrow> bool" where
  "truthy x = (case x of None \<Rightarrow> False | Some v \<Rightarrow> v \<noteq> [])"

definition or_string :: "string option \<Rightarrow> string option \<Rightarrow> string option" where
  "or_string x y = (if truthy x then x else y)"

text \<open>\<open>x || now\<close> for an optional date: a \<open>Date\<close> object is truthy.\<close>

definition or_date :: "date option \<Rightarrow> date \<Rightarrow> date" where
  "or_date x now = (case x of None \<Rightarrow> now | Some d \<Rightarrow> d)"

text \<open>
  Numbers are IEEE 754 doubles, and \<open>*\<close> and \<open>+\<close> round their exact result to the nearest
  double, a tie going to the even significand. A double is given by the real number it
  stands for; \<open>to_double\<close> is the rounding. For \<open>x > 0\<close>, \<open>exponent x\<close> is the \<open>e\<close> with
  \<open>2 ^ e \<le> x < 2 ^ (e + 1)\<close>, found from the number of binary digits of the integer part
  of \<open>x\<close> (of \<open>1 / x\<close> below 1), and \<open>ulp x\<close> is the distance of the doubles around \<open>x\<close>:
  \<open>2 ^ (e - 52)\<close>, and \<open>2 ^ -1074\<close> for the subnormal numbers. The numbers of this program
  are far below the largest double, so the rounding to infinity is left out.
\<close>

fun bitlen :: "nat \<Rightarrow> nat" where
  "bitlen n = (if n = 0 then 0 else Suc (bitlen (n div 2)))"

declare bitlen.simps [simp del]

definition exponent :: "real \<Rightarrow> int" where
  "exponent x =
     (if 1 \<le> x then int (bitlen (nat \<lfloor>x\<rfloor>)) - 1
      else - int (bitlen (nat \<lceil>1 / x\<rceil> - 1)))"

definition ulp :: "real \<Rightarrow> real" where
  "ulp x = 2 powi (max (exponent x - 52) (- 1074))"

definition round_half_even :: "real \<Rightarrow> int" where
  "round_half_even y =
     (let f = \<lfloor>y\<rfloor>; d = y - of_int f
      in if d < 1 / 2 then f else if 1 / 2 < d then f + 1 else if even f then f else f + 1)"

definition nearest_double :: "real \<Rightarrow> real" where
  "nearest_double x = (if x = 0 then 0 else ulp x * of_int (round_half_even (x / ulp x)))"

definition to_double :: "real \<Rightarrow> real" where
  "to_double x = (if x < 0 then - nearest_double (- x) else nearest_double x)"

text \<open>The decimal digits of an integer, as a template literal prints a number.\<close>

definition digit_char :: "nat \<Rightarrow> char" where
  "digit_char d = ''0123456789'' ! d"

fun digits :: "nat \<Rightarrow> string" where
  "digits n = (if n < 10 then [digit_char n] else digits (n div 10) @ [digit_char (n mod 10)])"

declare digits.simps [simp del]

definition number_to_string :: "int \<Rightarrow> string" where
  "number_to_string n = (if n < 0 then CHR ''-'' # digits (nat (- n)) else digits (nat n))"

subsection \<open>The statements sent to the datastore\<close>

text \<open>
  A \<open>Date\<close> bound to a \<open>DATETIME\<close> column is rounded to the nearest second (half a second
  goes up); a \<open>DATETIME\<close> value comes back as the \<open>Date\<close> of that second.
\<close>

definition to_datetime :: "date \<Rightarrow> datetime" where
  "to_datetime d = (d + 500) div 1000"

definition from_datetime :: "datetime \<Rightarrow> date" where
  "from_datetime t = t * 1000"

definition stored_date :: "date \<Rightarrow> date" where
  "stored_date d = from_datetime (to_datetime d)"

text \<open>\<open>SELECT * FROM applications WHERE id = ?\<close>\<close>

definition select_applications_by_id :: "string \<Rightarrow> store \<Rightarrow> application_row list" where
  "select_applications_by_id i s = filter (\<lambda>r. row_id r = i) (applications s)"

text \<open>\<open>SELECT * FROM applications WHERE reference_number = ?\<close>\<close>

definition select_applications_by_reference :: "string \<Rightarrow> store \<Rightarrow> application_row list" where
  "select_applications_by_reference ref s =
     filter (\<lambda>r. row_reference_number r = ref) (applications s)"

text \<open>
  \<open>INSERT INTO applications\<close>: \<open>id\<close> is the primary key and \<open>reference_number\<close> is
  \<open>UNIQUE\<close>, so a row that repeats either is refused with an error of the datastore.
\<close>

definition insert_application :: "application_row \<Rightarrow> store \<Rightarrow> error + store" where
  "insert_application r s =
     (if row_id r \<in> set (map row_id (applications s))
         \<or> row_reference_number r \<in> set (map row_reference_number (applications s))
      then Inl Duplicate_entry
      else Inr (s\<lparr>applications := applications s @ [r]\<rparr>))"

text \<open>\<open>UPDATE applications SET ... WHERE id = ?\<close>: every row with that id is changed.\<close>

definition update_applications ::
  "string \<Rightarrow> (application_row \<Rightarrow> application_row) \<Rightarrow> store \<Rightarrow> store" where
  "update_applications i f s =
     s\<lparr>applications := map (\<lambda>r. if row_id r = i then f r else r) (applications s)\<rparr>"

text \<open>\<open>SELECT * FROM admins WHERE username = ?\<close> and \<open>WHERE id = ?\<close>\<close>

definition select_admins_by_username :: "string \<Rightarrow> store \<Rightarrow> admin_row list" where
  "select_admins_by_username u s = filter (\<lambda>r. arow_username r = u) (admins s)"

definition select_admins_by_id :: "string \<Rightarrow> store \<Rightarrow> admin_row list" where
  "select_admins_by_id i s = filter (\<lambda>r. arow_id r = i) (admins s)"

text \<open>\<open>INSERT INTO admins\<close>: \<open>id\<close> is the primary key and \<open>username\<close> is \<open>UNIQUE\<close>.\<close>

definition insert_admin :: "admin_row \<Rightarrow> store \<Rightarrow> error + store" where
  "insert_admin r s =
     (if arow_id r \<in> set (map arow_id (admins s))
         \<or> arow_username r \<in> set (map arow_username (admins s))
      then Inl Duplicate_entry
      else Inr (s\<lparr>admins := admins s @ [r]\<rparr>))"

subsection \<open>Rows to records\<close>

definition mapRowToApplication :: "application_row \<Rightarrow> Application" where
  "mapRowToApplication row =
     \<lparr>app_id = row_id row,
      referenceNumber = row_reference_number row,
      fullName = row_full_name row,
      idNumber = row_id_number row,
      phoneNumber = row_phone_number row,
      email = row_email row,
      propertyAddress = row_property_address row,
      standNumber = row_stand_number row,
      propertyType = row_property_type row,
      reason = row_reason row,
      documents = or_empty (row_documents row),
      uploadedDocuments = or_empty (row_uploaded_documents row),
      status = row_status row,
      submittedDate = from_datetime (row_submitted_date row),
      reviewDate = map_option from_datetime (row_review_date row),
      completedDate = map_option from_datetime (row_completed_date row),
      adminNotes = row_admin_notes row,
      reviewedBy = row_reviewed_by row\<rparr>"

definition mapRowToAdmin :: "admin_row \<Rightarrow> Admin" where
  "mapRowToAdmin row =
     \<lparr>admin_id = arow_id row,
      username = arow_username row,
      password = arow_password row,
      admin_fullName = arow_full_name row,
      createdAt = from_datetime (arow_created_at row)\<rparr>"

subsection \<open>Initialisation\<close>

text \<open>
  \<open>createTables\<close>: both statements are \<open>CREATE TABLE IF NOT EXISTS\<close>; they leave the rows
  of an existing table as they are and create a missing table without rows.
\<close>

definition createTables :: "store \<Rightarrow> error + store" where
  "createTables s = (if \<not> connection s then Inl Connection_not_established else Inr s)"

definition createDefaultAdmin :: "string \<Rightarrow> date \<Rightarrow> store \<Rightarrow> error + store" where
  "createDefaultAdmin uuid now s =
     (if \<not> connection s then Inl Connection_not_established
      else
        let defaultAdminId = uuid;
            rows = select_admins_by_username ''admin'' s
        in if length rows = 0
           then insert_admin
                  \<lparr>arow_id = defaultAdminId, arow_username = ''admin'',
                   arow_password = ''admin123'', arow_full_name = ''System Administrator'',
                   arow_created_at = to_datetime now\<rparr> s
           else Inr s)"

text \<open>
  \<open>initializeDatabase\<close>, which the constructor runs: it sets the connection, creates the
  tables and seeds the default administrator; an error of a step is thrown again.
  Opening the connection (\<open>mysql.createConnection\<close>) is taken to succeed.
\<close>

definition initializeDatabase :: "string \<Rightarrow> date \<Rightarrow> store \<Rightarrow> error + store" where
  "initializeDatabase uuid now s =
     (case createTables (s\<lparr>connection := True\<rparr>) of
        Inl e \<Rightarrow> Inl e
      | Inr s1 \<Rightarrow> createDefaultAdmin uuid now s1)"

text \<open>
  Consecutive initialisations over the same datastore, each with the identifier and the
  time it draws; the first error stops the sequence.
\<close>

fun initializations :: "(string \<times> date) list \<Rightarrow> store \<Rightarrow> error + store" where
  "initializations [] s = Inr s"
| "initializations ((uuid, now) # es) s =
     (case initializeDatabase uuid now s of
        Inl e \<Rightarrow> Inl e
      | Inr s' \<Rightarrow> initializations es s')"

subsection \<open>Application methods\<close>

definition createApplication ::
  "string \<Rightarrow> real \<Rightarrow> date \<Rightarrow> InsertApplication \<Rightarrow> store \<Rightarrow> error + (Application \<times> store)" where
  "createApplication uuid rnd now insertApplication s =
     (if \<not> connection s then Inl Connection_not_established
      else
        let application =
              \<lparr>app_id = uuid,
               referenceNumber =
                 ''RCC-2025-''
                 @ number_to_string \<lfloor>to_double (to_double (rnd * 900000) + 100000)\<rfloor>,
               fullName = i_fullName insertApplication,
               idNumber = i_idNumber insertApplication,
               phoneNumber = i_phoneNumber insertApplication,
               email = or_string (i_email insertApplication) None,
               propertyAddress = i_propertyAddress insertApplication,
               standNumber = i_standNumber insertApplication,
               propertyType = i_propertyType insertApplication,
               reason = i_reason insertApplication,
               documents = or_empty (i_documents insertApplication),
               uploadedDocuments = or_empty (i_uploadedDocuments insertApplication),
               status = Submitted,
               submittedDate = now,
               reviewDate = None,
               completedDate = None,
               adminNotes = None,
               reviewedBy = None\<rparr>
        in case insert_application
                  \<lparr>row_id = app_id application,
                   row_reference_number = referenceNumber application,
                   row_full_name = fullName application,
                   row_id_number = idNumber application,
                   row_phone_number = phoneNumber application,
                   row_email = email application,
                   row_property_address = propertyAddress application,
                   row_stand_number = standNumber application,
                   row_property_type = propertyType application,
                   row_reason = reason application,
                   row_documents = Some (documents application),
                   row_uploaded_documents = Some (uploadedDocuments application),
                   row_status = status application,
                   row_submitted_date = to_datetime (submittedDate application),
                   row_review_date = map_option to_datetime (reviewDate application),
                   row_completed_date = map_option to_datetime (completedDate application),
                   row_admin_notes = adminNotes application,
                   row_reviewed_by = reviewedBy application\<rparr> s of
             Inl e \<Rightarrow> Inl e
           | Inr s' \<Rightarrow> Inr (application, s'))"

definition getApplication :: "string \<Rightarrow> store \<Rightarrow> error + Application option" where
  "getApplication i s =
     (if \<not> connection s then Inl Connection_not_established
      else case select_applications_by_id i s of
             [] \<Rightarrow> Inr None
           | row # _ \<Rightarrow> Inr (Some (mapRowToApplication row)))"

definition getApplicationByReference :: "string \<Rightarrow> store \<Rightarrow> error + Application option" where
  "getApplicationByReference ref s =
     (if \<not> connection s then Inl Connection_not_established
      else case select_applications_by_reference ref s of
             [] \<Rightarrow> Inr None
           | row # _ \<Rightarrow> Inr (Some (mapRowToApplication row)))"

text \<open>
  \<open>updateApplicationStatus\<close>: the optional arguments \<open>reviewedBy\<close>, \<open>adminNotes\<close> and
  \<open>reason\<close> are options, \<open>None\<close> when the caller leaves them out.
\<close>

definition updateApplicationStatus ::
  "date \<Rightarrow> string \<Rightarrow> status \<Rightarrow> string option \<Rightarrow> string option \<Rightarrow> string option \<Rightarrow> store
     \<Rightarrow> error + (Application option \<times> store)" where
  "updateApplicationStatus now i st reviewedBy' adminNotes' reason' s =
     (if \<not> connection s then Inl Connection_not_established
      else case getApplication i s of
             Inl e \<Rightarrow> Inl e
           | Inr None \<Rightarrow> Inr (None, s)
           | Inr (Some application) \<Rightarrow>
               let reviewDate' = or_date (reviewDate application) now;
                   completedDate' =
                     (if st = Approved \<or> st = Rejected then Some now
                      else completedDate application);
                   newReviewedBy = or_string reviewedBy' (reviewedBy application);
                   newAdminNotes = or_string adminNotes' (adminNotes application);
                   newReason =
                     (case reason' of
                        None \<Rightarrow> reason application
                      | Some v \<Rightarrow> if v \<noteq> [] then v else reason application)
               in Inr (Some (application
                         \<lparr>status := st,
                          reviewedBy := newReviewedBy,
                          adminNotes := newAdminNotes,
                          reason := newReason,
                          reviewDate := Some reviewDate',
                          completedDate := completedDate'\<rparr>),
                       update_applications i
                         (\<lambda>r. r\<lparr>row_status := st,
                                row_reviewed_by := newReviewedBy,
                                row_admin_notes := newAdminNotes,
                                row_reason := newReason,
                                row_review_date := Some (to_datetime reviewDate'),
                                row_completed_date :=
                                  map_option to_datetime completedDate'\<rparr>) s))"

text \<open>
  \<open>attachDocuments\<close>: \<open>application.documents\<close> is the array \<open>mapRowToApplication\<close> built,
  so \<open>application.documents || []\<close> is that array.
\<close>

definition attachDocuments ::
  "date \<Rightarrow> string \<Rightarrow> string list \<Rightarrow> store \<Rightarrow> error + (Application option \<times> store)" where
  "attachDocuments now i docs s =
     (if \<not> connection s then Inl Connection_not_established
      else case getApplication i s of
             Inl e \<Rightarrow> Inl e
           | Inr None \<Rightarrow> Inr (None, s)
           | Inr (Some application) \<Rightarrow>
               let currentDocuments = documents application;
                   updatedDocuments = currentDocuments @ docs
               in Inr (Some (application
                         \<lparr>documents := updatedDocuments,
                          uploadedDocuments := updatedDocuments,
                          status := Under_review,
                          reviewDate := Some now\<rparr>),
                       update_applications i
                         (\<lambda>r. r\<lparr>row_documents := Some updatedDocuments,
                                row_uploaded_documents := Some updatedDocuments,
                                row_status := Under_review,
                                row_review_date := Some (to_datetime now)\<rparr>) s))"

subsection \<open>Administrator methods\<close>

definition getAdmin :: "string \<Rightarrow> store \<Rightarrow> error + Admin option" where
  "getAdmin i s =
     (if \<not> connection s then Inl Connection_not_established
      else case select_admins_by_id i s of
             [] \<Rightarrow> Inr None
           | row # _ \<Rightarrow> Inr (Some (mapRowToAdmin row)))"

definition getAdminByUsername :: "string \<Rightarrow> store \<Rightarrow> error + Admin option" where
  "getAdminByUsername u s =
     (if \<not> connection s then Inl Connection_not_established
      else case select_admins_by_username u s of
             [] \<Rightarrow> Inr None
           | row # _ \<Rightarrow> Inr (Some (mapRowToAdmin row)))"

definition createAdmin :: "string \<Rightarrow> date \<Rightarrow> InsertAdmin \<Rightarrow> store \<Rightarrow> error + (Admin \<times> store)" where
  "createAdmin uuid now insertAdmin s =
     (if \<not> connection s then Inl Connection_not_established
      else
        let admin =
              \<lparr>admin_id = uuid,
               username = ia_username insertAdmin,
               password = ia_password insertAdmin,
               admin_fullName = ia_fullName insertAdmin,
               createdAt = now\<rparr>
        in case insert_admin
                  \<lparr>arow_id = admin_id admin, arow_username = username admin,
                   arow_password = password admin, arow_full_name = admin_fullName admin,
                   arow_created_at = to_datetime (createdAt admin)\<rparr> s of
             Inl e \<Rightarrow> Inl e
           | Inr s' \<Rightarrow> Inr (admin, s'))"

subsection \<open>Reachable states\<close>

text \<open>
  The states of the store that the methods produce, starting from a datastore without
  rows and a store whose connection is not set. A call that throws writes nothing, so
  only the calls that return make a step. \<open>Math.random()\<close> draws a double \<open>r\<close> with
  \<open>0 \<le> r < 1\<close>.
\<close>

inductive reachable :: "store \<Rightarrow> bool" where
  reachable_empty: "reachable empty_store"
| reachable_initialize:
    "reachable s \<Longrightarrow> initializeDatabase uuid now s = Inr s' \<Longrightarrow> reachable s'"
| reachable_create:
    "reachable s \<Longrightarrow> 0 \<le> rnd \<Longrightarrow> rnd < 1 \<Longrightarrow> to_double rnd = rnd \<Longrightarrow>
     createApplication uuid rnd now ins s = Inr (a, s') \<Longrightarrow> reachable s'"
| reachable_update:
    "reachable s \<Longrightarrow> updateApplicationStatus now i st rb an re s = Inr (r, s') \<Longrightarrow>
     reachable s'"
| reachable_attach:
    "reachable s \<Longrightarrow> attachDocuments now i docs s = Inr (r, s') \<Longrightarrow> reachable s'"
| reachable_createAdmin:
    "reachable s \<Longrightarrow> createAdmin uuid now ia s = Inr (adm, s') \<Longrightarrow> reachable s'"

text \<open>Any number of calls of \<open>updateApplicationStatus\<close> that return, on any ids.\<close>

inductive updates :: "store \<Rightarrow> store \<Rightarrow> bool" where
  updates_none: "updates s s"
| updates_step:
    "updates s s1 \<Longrightarrow> updateApplicationStatus now i st rb an re s1 = Inr (r, s2) \<Longrightarrow>
     updates s s2"

subsection \<open>Properties of records and states\<close>

text \<open>
  A record with its dates as the \<open>DATETIME\<close> columns keep them: what is read back after
  the record was written.
\<close>

definition as_stored :: "Application \<Rightarrow> Application" where
  "as_stored a =
     a\<lparr>submittedDate := stored_date (submittedDate a),
       reviewDate := map_option stored_date (reviewDate a),
       completedDate := map_option stored_date (completedDate a)\<rparr>"

text \<open>The applications the table holds, as records.\<close>

definition stored_applications :: "store \<Rightarrow> Application list" where
  "stored_applications s = map mapRowToApplication (applications s)"

definition decided :: "status \<Rightarrow> bool" where
  "decided st = (st = Approved \<or> st = Rejected)"

text \<open>The completion date is set exactly when the status is approved or rejected.\<close>

definition completed_iff_decided :: "Application \<Rightarrow> bool" where
  "completed_iff_decided a = ((completedDate a \<noteq> None) = decided (status a))"

text \<open>The completion date is set when the status is approved or rejected.\<close>

definition completed_if_decided :: "Application \<Rightarrow> bool" where
  "completed_if_decided a = (decided (status a) \<longrightarrow> completedDate a \<noteq> None)"

text \<open>The pattern \<open>RCC-2025-\d{6}\<close>: the prefix, then exactly six decimal digits.\<close>

definition is_digit :: "char \<Rightarrow> bool" where
  "is_digit c = (c \<in> set ''0123456789'')"

definition matches_reference_pattern :: "string \<Rightarrow> bool" where
  "matches_reference_pattern ref =
     (take 9 ref = ''RCC-2025-'' \<and> length (drop 9 ref) = 6 \<and> list_all is_digit (drop 9 ref))"

definition reference_numbers :: "store \<Rightarrow> string list" where
  "reference_numbers s = map row_reference_number (applications s)"

text \<open>The two properties, for every application the table holds.\<close>

definition store_completed_iff_decided :: "store \<Rightarrow> bool" where
  "store_completed_iff_decided s = list_all completed_iff_decided (stored_applications s)"

definition store_completed_if_decided :: "store \<Rightarrow> bool" where
  "store_completed_if_decided s = list_all completed_if_decided (stored_applications s)"

subsection \<open>A sample run\<close>

text \<open>
  The store is initialised at second 1 (the \<open>Date\<close> 1000); at second 2 an application is
  created with one document and no uploaded documents (\<open>Math.random()\<close> returns 0.5); the
  states after that come from one more call each.
\<close>

definition demo_admin_row :: admin_row where
  "demo_admin_row =
     \<lparr>arow_id = ''admin-1'', arow_username = ''admin'', arow_password = ''admin123'',
      arow_full_name = ''System Administrator'', arow_created_at = 1\<rparr>"

definition st_init :: store where
  "st_init = \<lparr>connection = True, applications = [], admins = [demo_admin_row]\<rparr>"

definition demo_input :: InsertApplication where
  "demo_input =
     \<lparr>i_fullName = ''Jane Doe'', i_idNumber = ''63-1'', i_phoneNumber = ''0771'',
      i_email = None, i_propertyAddress = ''12 Hill Rd'', i_standNumber = ''77'',
      i_propertyType = ''residential'', i_reason = ''sale'',
      i_documents = Some [''deed''], i_uploadedDocuments = None\<rparr>"

definition app_created :: Application where
  "app_created =
     \<lparr>app_id = ''app-1'', referenceNumber = ''RCC-2025-550000'', fullName = ''Jane Doe'',
      idNumber = ''63-1'', phoneNumber = ''0771'', email = None,
      propertyAddress = ''12 Hill Rd'', standNumber = ''77'',
      propertyType = ''residential'', reason = ''sale'', documents = [''deed''],
      uploadedDocuments = [], status = Submitted, submittedDate = 2000, reviewDate = None,
      completedDate = None, adminNotes = None, reviewedBy = None\<rparr>"

definition row_created :: application_row where
  "row_created =
     \<lparr>row_id = ''app-1'', row_reference_number = ''RCC-2025-550000'',
      row_full_name = ''Jane Doe'', row_id_number = ''63-1'', row_phone_number = ''0771'',
      row_email = None, row_property_address = ''12 Hill Rd'', row_stand_number = ''77'',
      row_property_type = ''residential'', row_reason = ''sale'',
      row_documents = Some [''deed''], row_uploaded_documents = Some [],
      row_status = Submitted, row_submitted_date = 2, row_review_date = None,
      row_completed_date = None, row_admin_notes = None, row_reviewed_by = None\<rparr>"

definition st_created :: store where
  "st_created = st_init\<lparr>applications := [row_created]\<rparr>"

text \<open>Approved at second 3 by \<open>clerk\<close>.\<close>

definition app_approved :: Application where
  "app_approved =
     app_created\<lparr>status := Approved, reviewedBy := Some ''clerk'', reviewDate := Some 3000,
       completedDate := Some 3000\<rparr>"

definition row_approved :: application_row where
  "row_approved =
     row_created\<lparr>row_status := Approved, row_reviewed_by := Some ''clerk'',
       row_review_date := Some 3, row_completed_date := Some 3\<rparr>"

definition st_approved :: store where
  "st_approved = st_init\<lparr>applications := [row_approved]\<rparr>"

text \<open>After the approval, set back to under review at second 4.\<close>

definition app_reopened :: Application where
  "app_reopened = app_approved\<lparr>status := Under_review\<rparr>"

definition st_reopened :: store where
  "st_reopened = st_init\<lparr>applications := [row_approved\<lparr>row_status := Under_review\<rparr>]\<rparr>"

text \<open>After the approval, approved once more at second 4.\<close>

definition app_reapproved :: Application where
  "app_reapproved = app_approved\<lparr>completedDate := Some 4000\<rparr>"

definition st_reapproved :: store where
  "st_reapproved = st_init\<lparr>applications := [row_approved\<lparr>row_completed_date := Some 4\<rparr>]\<rparr>"

text \<open>After the creation, \<open>doc1\<close> attached at second 3, then \<open>doc2\<close> at second 4.\<close>

definition app_attached :: Application where
  "app_attached =
     app_created\<lparr>documents := [''deed'', ''doc1''], uploadedDocuments := [''deed'', ''doc1''],
       status := Under_review, reviewDate := Some 3000\<rparr>"

definition row_attached :: application_row where
  "row_attached =
     row_created\<lparr>row_documents := Some [''deed'', ''doc1''],
       row_uploaded_documents := Some [''deed'', ''doc1''],
       row_status := Under_review, row_review_date := Some 3\<rparr>"

definition st_attached :: store where
  "st_attached = st_init\<lparr>applications := [row_attached]\<rparr>"

definition app_attached_twice :: Application where
  "app_attached_twice =
     app_attached\<lparr>documents := [''deed'', ''doc1'', ''doc2''],
       uploadedDocuments := [''deed'', ''doc1'', ''doc2''], reviewDate := Some 4000\<rparr>"

definition st_attached_twice :: store where
  "st_attached_twice =
     st_init\<lparr>applications :=
       [row_attached\<lparr>row_documents := Some [''deed'', ''doc1'', ''doc2''],
          row_uploaded_documents := Some [''deed'', ''doc1'', ''doc2''],
          row_review_date := Some 4\<rparr>]\<rparr>"

text \<open>
  After the creation, a second application created at second 5 (\<open>Math.random()\<close> returns
  0.25).
\<close>

definition app_second :: Application where
  "app_second =
     app_created\<lparr>app_id := ''app-2'', referenceNumber := ''RCC-2025-325000'',
       submittedDate := 5000\<rparr>"

definition row_second :: application_row where
  "row_second =
     row_created\<lparr>row_id := ''app-2'', row_reference_number := ''RCC-2025-325000'',
       row_submitted_date := 5\<rparr>"

definition st_second :: store where
  "st_second = st_init\<lparr>applications := [row_created, row_second]\<rparr>"

text \<open>
  After the creation, put under review at the \<open>Date\<close> 3700, which the column keeps as
  second 4, and approved at second 5.
\<close>

definition app_reviewed :: Application where
  "app_reviewed = app_created\<lparr>status := Under_review, reviewDate := Some 3700\<rparr>"

definition row_reviewed :: application_row where
  "row_reviewed = row_created\<lparr>row_status := Under_review, row_review_date := Some 4\<rparr>"

definition st_reviewed :: store where
  "st_reviewed = st_init\<lparr>applications := [row_reviewed]\<rparr>"

definition app_reviewed_approved :: Application where
  "app_reviewed_approved =
     app_created\<lparr>status := Approved, reviewDate := Some 4000, completedDate := Some 5000\<rparr>"

definition st_reviewed_approved :: store where
  "st_reviewed_approved =
     st_init\<lparr>applications :=
       [row_reviewed\<lparr>row_status := Approved, row_completed_date := Some 5\<rparr>]\<rparr>"

section \<open>Properties\<close>

subsection \<open>Dates and the datastore\<close>

lemma to_datetime_from_datetime [simp]: "to_datetime (from_datetime t) = t"
  by (simp add: to_datetime_def from_datetime_def)

lemma stored_date_from_datetime [simp]: "stored_date (from_datetime t) = from_datetime t"
  by (simp add: stored_date_def)

lemma stored_date_idem [simp]: "stored_date (stored_date d) = stored_date d"
  by (simp add: stored_date_def)

lemma as_stored_mapRowToApplication [simp]:
  "as_stored (mapRowToApplication row) = mapRowToApplication row"
  by (simp add: as_stored_def mapRowToApplication_def option.map_comp comp_def)

subsection \<open>Selecting and updating rows\<close>

lemma filter_update_rows:
  assumes "\<And>r. row_id (f r) = row_id r"
  shows "filter (\<lambda>r. row_id r = j) (map (\<lambda>r. if row_id r = i then f r else r) rows) =
         (if j = i then map f (filter (\<lambda>r. row_id r = i) rows)
          else filter (\<lambda>r. row_id r = j) rows)"
  using assms by (induction rows) auto

lemma select_update_same:
  assumes "\<And>r. row_id (f r) = row_id r"
  shows "select_applications_by_id i (update_applications i f s) =
         map f (select_applications_by_id i s)"
  using filter_update_rows[OF assms, of i i]
  by (simp add: select_applications_by_id_def update_applications_def)

lemma select_update_other:
  assumes "\<And>r. row_id (f r) = row_id r" and "j \<noteq> i"
  shows "select_applications_by_id j (update_applications i f s) =
         select_applications_by_id j s"
  using filter_update_rows[OF assms(1), of j i] assms(2)
  by (simp add: select_applications_by_id_def update_applications_def)

lemma connection_update_applications [simp]:
  "connection (update_applications i f s) = connection s"
  by (simp add: update_applications_def)

lemma admins_update_applications [simp]:
  "admins (update_applications i f s) = admins s"
  by (simp add: update_applications_def)

lemma getApplication_Some_iff:
  "getApplication i s = Inr (Some a) \<longleftrightarrow>
     connection s \<and>
     (\<exists>row rest. select_applications_by_id i s = row # rest \<and> a = mapRowToApplication row)"
  by (auto simp: getApplication_def split: list.splits)


lemma getApplication_as_stored:
  assumes "getApplication i s = Inr (Some a)"
  shows "as_stored a = a"
  using assms by (auto simp: getApplication_Some_iff)

lemma getApplication_update_other:
  assumes "\<And>r. row_id (f r) = row_id r" and "j \<noteq> i"
  shows "getApplication j (update_applications i f s) = getApplication j s"
  by (simp add: getApplication_def select_update_other[OF assms])

text \<open>What the two updating methods return when the application is there.\<close>

lemma updateApplicationStatus_found:
  assumes "getApplication i s = Inr (Some a)"
  shows "updateApplicationStatus now i st rb an re s =
           Inr (Some (a\<lparr>status := st,
                       reviewedBy := or_string rb (reviewedBy a),
                       adminNotes := or_string an (adminNotes a),
                       reason := (case re of None \<Rightarrow> reason a
                                  | Some v \<Rightarrow> if v \<noteq> [] then v else reason a),
                       reviewDate := Some (or_date (reviewDate a) now),
                       completedDate := (if st = Approved \<or> st = Rejected then Some now
                                         else completedDate a)\<rparr>),
                update_applications i
                  (\<lambda>r. r\<lparr>row_status := st,
                         row_reviewed_by := or_string rb (reviewedBy a),
                         row_admin_notes := or_string an (adminNotes a),
                         row_reason := (case re of None \<Rightarrow> reason a
                                        | Some v \<Rightarrow> if v \<noteq> [] then v else reason a),
                         row_review_date := Some (to_datetime (or_date (reviewDate a) now)),
                         row_completed_date :=
                           map_option to_datetime
                             (if st = Approved \<or> st = Rejected then Some now
                              else completedDate a)\<rparr>) s)"
proof -
  from assms have "connection s" by (simp add: getApplication_Some_iff)
  with assms show ?thesis by (simp add: updateApplicationStatus_def Let_def)
qed

lemma updateApplicationStatus_persisted:
  assumes "getApplication i s = Inr (Some a)"
    and "updateApplicationStatus now i st rb an re s = Inr (r, s')"
  shows "getApplication i s' = Inr (map_option as_stored r)"
proof -
  from assms(1) obtain row rest where c: "connection s"
    and sel: "select_applications_by_id i s = row # rest" and a: "a = mapRowToApplication row"
    by (auto simp: getApplication_Some_iff)
  from assms(2) show ?thesis
    unfolding updateApplicationStatus_found[OF assms(1)]
    using c sel a
    by (auto simp: getApplication_def select_update_same mapRowToApplication_def
        as_stored_def stored_date_def option.map_comp comp_def or_date_def
        split: option.splits)
qed

lemma attachDocuments_found:
  assumes "getApplication i s = Inr (Some a)"
  shows "attachDocuments now i docs s =
           Inr (Some (a\<lparr>documents := documents a @ docs,
                       uploadedDocuments := documents a @ docs,
                       status := Under_review,
                       reviewDate := Some now\<rparr>),
                update_applications i
                  (\<lambda>r. r\<lparr>row_documents := Some (documents a @ docs),
                         row_uploaded_documents := Some (documents a @ docs),
                         row_status := Under_review,
                         row_review_date := Some (to_datetime now)\<rparr>) s)"
proof -
  from assms have "connection s" by (simp add: getApplication_Some_iff)
  with assms show ?thesis by (simp add: attachDocuments_def Let_def)
qed

lemma attachDocuments_persisted:
  assumes "getApplication i s = Inr (Some a)"
    and "attachDocuments now i docs s = Inr (r, s')"
  shows "getApplication i s' = Inr (map_option as_stored r)"
proof -
  from assms(1) obtain row rest where c: "connection s"
    and sel: "select_applications_by_id i s = row # rest" and a: "a = mapRowToApplication row"
    by (auto simp: getApplication_Some_iff)
  from assms(2) show ?thesis
    unfolding attachDocuments_found[OF assms(1)]
    using c sel a
    by (auto simp: getApplication_def select_update_same mapRowToApplication_def or_empty_def
        as_stored_def stored_date_def option.map_comp comp_def)
qed

subsection \<open>The sample run\<close>

lemmas eval_double =
  to_double_def nearest_double_def ulp_def exponent_def bitlen.simps round_half_even_def Let_def

lemmas eval_number = number_to_string_def digits.simps digit_char_def

lemmas eval_date = to_datetime_def from_datetime_def

lemma half_is_double: "to_double (1 / 2) = 1 / 2"
  by (simp add: eval_double)

lemma quarter_is_double: "to_double (1 / 4) = 1 / 4"
  by (simp add: eval_double)

text \<open>
  The rounding of the product decides the number of a draw such as this one: the exact
  product lies just below 450018, and the double nearest to it is 450018.
\<close>

lemma draw_rounded_up:
  "to_double (2251889885677795 / 2 ^ 52) = 2251889885677795 / 2 ^ 52"
  "\<lfloor>to_double (to_double (2251889885677795 / 2 ^ 52 * 900000) + 100000)\<rfloor> = 550018"
  "\<lfloor>2251889885677795 / 2 ^ 52 * 900000 + 100000 :: real\<rfloor> = 550017"
  by (simp_all add: eval_double)

lemma run_initialize: "initializeDatabase ''admin-1'' 1000 empty_store = Inr st_init"
  by (simp add: initializeDatabase_def createTables_def createDefaultAdmin_def
      select_admins_by_username_def insert_admin_def empty_store_def st_init_def
      demo_admin_row_def eval_date)

lemma run_create:
  "createApplication ''app-1'' (1 / 2) 2000 demo_input st_init = Inr (app_created, st_created)"
  by (simp add: createApplication_def insert_application_def st_init_def st_created_def
      demo_input_def app_created_def row_created_def or_string_def truthy_def or_empty_def
      eval_double eval_number eval_date)

text \<open>
  A second creation that draws the same random number is refused by the datastore (the
  reference number is taken): the call throws. With another draw it returns.
\<close>

lemma run_create_collision:
  "createApplication ''app-2'' (1 / 2) 5000 demo_input st_created = Inl Duplicate_entry"
  by (simp add: createApplication_def insert_application_def st_created_def st_init_def
      row_created_def eval_double eval_number)

lemma run_create_second:
  "createApplication ''app-2'' (1 / 4) 5000 demo_input st_created
     = Inr (app_second, st_second)"
  by (simp add: createApplication_def insert_application_def st_init_def st_created_def
      st_second_def demo_input_def app_second_def app_created_def row_second_def
      row_created_def or_string_def truthy_def or_empty_def
      eval_double eval_number eval_date)

lemma get_created: "getApplication ''app-1'' st_created = Inr (Some app_created)"
  by (simp add: getApplication_def select_applications_by_id_def st_created_def st_init_def
      row_created_def app_created_def mapRowToApplication_def or_empty_def eval_date)

lemma get_approved: "getApplication ''app-1'' st_approved = Inr (Some app_approved)"
  by (simp add: getApplication_def select_applications_by_id_def st_approved_def st_init_def
      row_approved_def row_created_def app_approved_def app_created_def
      mapRowToApplication_def or_empty_def eval_date)

lemma run_approve:
  "updateApplicationStatus 3000 ''app-1'' Approved (Some ''clerk'') None None st_created
     = Inr (Some app_approved, st_approved)"
  unfolding updateApplicationStatus_found[OF get_created]
  by (simp add: app_approved_def app_created_def st_approved_def st_created_def st_init_def
      row_approved_def row_created_def update_applications_def or_string_def truthy_def
      or_date_def eval_date)

lemma run_reopen:
  "updateApplicationStatus 4000 ''app-1'' Under_review None None None st_approved
     = Inr (Some app_reopened, st_reopened)"
  unfolding updateApplicationStatus_found[OF get_approved]
  by (simp add: app_reopened_def app_approved_def app_created_def st_approved_def
      st_reopened_def st_init_def row_approved_def row_created_def update_applications_def
      or_string_def truthy_def or_date_def eval_date)

lemma run_reapprove:
  "updateApplicationStatus 4000 ''app-1'' Approved None None None st_approved
     = Inr (Some app_reapproved, st_reapproved)"
  unfolding updateApplicationStatus_found[OF get_approved]
  by (simp add: app_reapproved_def app_approved_def app_created_def st_approved_def
      st_reapproved_def st_init_def row_approved_def row_created_def update_applications_def
      or_string_def truthy_def or_date_def eval_date)

lemma run_attach:
  "attachDocuments 3000 ''app-1'' [''doc1''] st_created
     = Inr (Some app_attached, st_attached)"
  unfolding attachDocuments_found[OF get_created]
  by (simp add: app_attached_def app_created_def st_attached_def row_attached_def
      st_created_def st_init_def row_created_def update_applications_def eval_date)

lemma get_attached: "getApplication ''app-1'' st_attached = Inr (Some app_attached)"
  by (simp add: getApplication_def select_applications_by_id_def st_attached_def st_init_def
      row_attached_def row_created_def app_attached_def app_created_def
      mapRowToApplication_def or_empty_def eval_date)

lemma run_attach_again:
  "attachDocuments 4000 ''app-1'' [''doc2''] st_attached
     = Inr (Some app_attached_twice, st_attached_twice)"
  unfolding attachDocuments_found[OF get_attached]
  by (simp add: app_attached_twice_def app_attached_def app_created_def st_attached_twice_def
      st_attached_def row_attached_def st_init_def row_created_def update_applications_def
      eval_date)

text \<open>
  An update at the \<open>Date\<close> 3700 returns that \<open>Date\<close> as the review date, and the column
  keeps second 4, which the next call reads.
\<close>

lemma run_review:
  "updateApplicationStatus 3700 ''app-1'' Under_review None None None st_created
     = Inr (Some app_reviewed, st_reviewed)"
  unfolding updateApplicationStatus_found[OF get_created]
  by (simp add: app_reviewed_def app_created_def st_reviewed_def row_reviewed_def
      st_created_def st_init_def row_created_def update_applications_def or_string_def
      truthy_def or_date_def eval_date)

lemma get_reviewed:
  "getApplication ''app-1'' st_reviewed = Inr (Some (app_reviewed\<lparr>reviewDate := Some 4000\<rparr>))"
  by (simp add: getApplication_def select_applications_by_id_def st_reviewed_def st_init_def
      row_reviewed_def row_created_def app_reviewed_def app_created_def
      mapRowToApplication_def or_empty_def eval_date)

lemma run_review_approve:
  "updateApplicationStatus 5000 ''app-1'' Approved None None None st_reviewed
     = Inr (Some app_reviewed_approved, st_reviewed_approved)"
  unfolding updateApplicationStatus_found[OF get_reviewed]
  by (simp add: app_reviewed_approved_def app_reviewed_def app_created_def
      st_reviewed_approved_def st_reviewed_def row_reviewed_def st_init_def row_created_def
      update_applications_def or_string_def truthy_def or_date_def eval_date)

lemma reachable_st_init: "reachable st_init"
  using reachable_initialize[OF reachable_empty run_initialize] .

lemma reachable_st_created: "reachable st_created"
  using reachable_create[OF reachable_st_init _ _ half_is_double run_create] by simp

lemma reachable_st_approved: "reachable st_approved"
  using reachable_update[OF reachable_st_created run_approve] .

lemma reachable_st_reopened: "reachable st_reopened"
  using reachable_update[OF reachable_st_approved run_reopen] .

subsection \<open>When the methods return\<close>

lemma createApplication_Inr_iff:
  "createApplication uuid rnd now ins s = Inr (a, s') \<longleftrightarrow>
     connection s
   \<and> uuid \<notin> row_id ` set (applications s)
   \<and> referenceNumber a \<notin> row_reference_number ` set (applications s)
   \<and> a = \<lparr>app_id = uuid,
           referenceNumber =
             ''RCC-2025-''
             @ number_to_string \<lfloor>to_double (to_double (rnd * 900000) + 100000)\<rfloor>,
           fullName = i_fullName ins, idNumber = i_idNumber ins,
           phoneNumber = i_phoneNumber ins, email = or_string (i_email ins) None,
           propertyAddress = i_propertyAddress ins, standNumber = i_standNumber ins,
           propertyType = i_propertyType ins, reason = i_reason ins,
           documents = or_empty (i_documents ins),
           uploadedDocuments = or_empty (i_uploadedDocuments ins),
           status = Submitted, submittedDate = now, reviewDate = None,
           completedDate = None, adminNotes = None, reviewedBy = None\<rparr>
   \<and> s' = s\<lparr>applications := applications s @
          [\<lparr>row_id = app_id a, row_reference_number = referenceNumber a,
            row_full_name = fullName a, row_id_number = idNumber a,
            row_phone_number = phoneNumber a, row_email = email a,
            row_property_address = propertyAddress a, row_stand_number = standNumber a,
            row_property_type = propertyType a, row_reason = reason a,
            row_documents = Some (documents a),
            row_uploaded_documents = Some (uploadedDocuments a),
            row_status = status a,
            row_submitted_date = to_datetime (submittedDate a),
            row_review_date = map_option to_datetime (reviewDate a),
            row_completed_date = map_option to_datetime (completedDate a),
            row_admin_notes = adminNotes a, row_reviewed_by = reviewedBy a\<rparr>]\<rparr>"
  by (auto simp: createApplication_def insert_application_def Let_def)

lemma updateApplicationStatus_cases:
  assumes "updateApplicationStatus now i st rb an re s = Inr (r, s')"
  shows "(r = None \<and> s' = s \<and> getApplication i s = Inr None)
       \<or> (\<exists>a. getApplication i s = Inr (Some a) \<and> r \<noteq> None)"
  using assms
  by (auto simp: updateApplicationStatus_def Let_def split: if_splits sum.splits option.splits)

lemma attachDocuments_cases:
  assumes "attachDocuments now i docs s = Inr (r, s')"
  shows "(r = None \<and> s' = s \<and> getApplication i s = Inr None)
       \<or> (\<exists>a. getApplication i s = Inr (Some a) \<and> r \<noteq> None)"
  using assms
  by (auto simp: attachDocuments_def Let_def split: if_splits sum.splits option.splits)

lemma updateApplicationStatus_other:
  assumes "updateApplicationStatus now i st rb an re s = Inr (r, s')" and "j \<noteq> i"
  shows "getApplication j s' = getApplication j s"
  using updateApplicationStatus_cases[OF assms(1)]
proof
  assume "r = None \<and> s' = s \<and> getApplication i s = Inr None"
  then show ?thesis by simp
next
  assume "\<exists>a. getApplication i s = Inr (Some a) \<and> r \<noteq> None"
  then obtain a where a: "getApplication i s = Inr (Some a)" by blast
  from assms(1) show ?thesis
    unfolding updateApplicationStatus_found[OF a]
    using assms(2) by (auto simp: getApplication_update_other)
qed

lemma attachDocuments_other:
  assumes "attachDocuments now i docs s = Inr (r, s')" and "j \<noteq> i"
  shows "getApplication j s' = getApplication j s"
  using attachDocuments_cases[OF assms(1)]
proof
  assume "r = None \<and> s' = s \<and> getApplication i s = Inr None"
  then show ?thesis by simp
next
  assume "\<exists>a. getApplication i s = Inr (Some a) \<and> r \<noteq> None"
  then obtain a where a: "getApplication i s = Inr (Some a)" by blast
  from assms(1) show ?thesis
    unfolding attachDocuments_found[OF a]
    using assms(2) by (auto simp: getApplication_update_other)
qed

subsection \<open>The review date\<close>

lemma updates_keep_reviewDate:
  assumes "updates s s'"
    and "getApplication i s = Inr (Some a)" and "reviewDate a = Some d"
  shows "\<exists>a'. getApplication i s' = Inr (Some a') \<and> reviewDate a' = Some d"
  using assms
proof (induction rule: updates.induct)
  case (updates_none s)
  then show ?case by simp
next
  case (updates_step s s1 now j st rb an re r s2)
  then obtain a1 where a1: "getApplication i s1 = Inr (Some a1)" "reviewDate a1 = Some d"
    by blast
  show ?case
  proof (cases "j = i")
    case True
    from updates_step.hyps(2) have "r = Some (a1\<lparr>status := st,
                       reviewedBy := or_string rb (reviewedBy a1),
                       adminNotes := or_string an (adminNotes a1),
                       reason := (case re of None \<Rightarrow> reason a1
                                  | Some v \<Rightarrow> if v \<noteq> [] then v else reason a1),
                       reviewDate := Some (or_date (reviewDate a1) now),
                       completedDate := (if st = Approved \<or> st = Rejected then Some now
                                         else completedDate a1)\<rparr>)"
      using updateApplicationStatus_found[OF a1(1), of now st rb an re] True by simp
    moreover have "getApplication i s2 = Inr (map_option as_stored r)"
      using updateApplicationStatus_persisted[OF a1(1)] updates_step.hyps(2) True by simp
    moreover have "stored_date d = d"
    proof -
      have "reviewDate (as_stored a1) = reviewDate a1"
        using getApplication_as_stored[OF a1(1)] by simp
      with a1(2) show ?thesis by (simp add: as_stored_def)
    qed
    ultimately show ?thesis using a1(2) by (simp add: or_date_def as_stored_def)
  next
    case False
    then have "getApplication i s2 = getApplication i s1"
      using updateApplicationStatus_other[OF updates_step.hyps(2), of i] by simp
    with a1 show ?thesis by simp
  qed
qed

subsection \<open>Reference numbers\<close>

text \<open>
  First the digits; then the rounding to the nearest double, on the grid of the doubles
  around a number; then the two operations of \<open>Math.random() * 900000 + 100000\<close>: for a
  double below 1 the result stays below 1000000.
\<close>

lemma is_digit_digit_char: "d < 10 \<Longrightarrow> is_digit (digit_char d)"
proof -
  assume "d < 10"
  then have "d < length ''0123456789''" by simp
  then have "''0123456789'' ! d \<in> set ''0123456789''" by (rule nth_mem)
  then show ?thesis by (simp only: is_digit_def digit_char_def)
qed

lemma digits_all_digits: "list_all is_digit (digits n)"
proof (induction n rule: digits.induct)
  case (1 n)
  show ?case
  proof (cases "n < 10")
    case True
    then show ?thesis by (subst digits.simps) (simp add: is_digit_digit_char)
  next
    case False
    with 1 show ?thesis by (subst digits.simps) (simp add: is_digit_digit_char)
  qed
qed

lemma digits_length: "10 ^ k \<le> n \<Longrightarrow> n < 10 ^ Suc k \<Longrightarrow> length (digits n) = Suc k"
proof (induction k arbitrary: n)
  case 0
  then show ?case by (subst digits.simps) simp
next
  case (Suc k)
  have "(10::nat) * 1 \<le> 10 * 10 ^ k" by (rule mult_le_mono2) simp
  also have "\<dots> \<le> n" using Suc.prems(1) by simp
  finally have ge: "\<not> n < 10" by simp
  have lo: "10 ^ k \<le> n div 10" using Suc.prems(1) by (simp add: less_eq_div_iff_mult_less_eq)
  have hi: "n div 10 < 10 ^ Suc k" using Suc.prems(2) by (simp add: div_less_iff_less_mult)
  from Suc.IH[OF lo hi] ge show ?case by (subst digits.simps) simp
qed

lemma round_half_even_ge:
  assumes "of_int K \<le> y"
  shows "K \<le> round_half_even y"
proof -
  from assms have "K \<le> \<lfloor>y\<rfloor>" by (simp add: le_floor_iff)
  then show ?thesis by (auto simp: round_half_even_def Let_def)
qed

lemma round_half_even_le:
  assumes "y < of_int K + 1 / 2"
  shows "round_half_even y \<le> K"
proof (cases "y < of_int K")
  case True
  then have "\<lfloor>y\<rfloor> < K" by (simp add: floor_less_iff)
  then show ?thesis by (auto simp: round_half_even_def Let_def)
next
  case False
  then have "of_int K \<le> y" by simp
  moreover from assms have "y < of_int K + 1" by simp
  ultimately have f: "\<lfloor>y\<rfloor> = K" by (simp add: floor_unique)
  with assms have "y - of_int \<lfloor>y\<rfloor> < 1 / 2" by simp
  with f show ?thesis by (simp add: round_half_even_def Let_def)
qed

lemma bitlen_le: "n < 2 ^ k \<Longrightarrow> bitlen n \<le> k"
proof (induction k arbitrary: n)
  case 0
  then show ?case by (subst bitlen.simps) simp
next
  case (Suc k)
  then have "n div 2 < 2 ^ k" by simp
  from Suc.IH[OF this] show ?case by (subst bitlen.simps) simp
qed

lemma bitlen_gt: "2 ^ k \<le> n \<Longrightarrow> k < bitlen n"
proof (induction k arbitrary: n)
  case 0
  then show ?case by (subst bitlen.simps) simp
next
  case (Suc k)
  then have "2 ^ k \<le> n div 2" by simp
  from Suc.IH[OF this] have "k < bitlen (n div 2)" .
  moreover have "(0::nat) < 2 ^ Suc k" by simp
  with Suc.prems have "n \<noteq> 0" by linarith
  ultimately show ?case by (subst bitlen.simps) simp
qed

lemma exponent_le:
  assumes "x < 2 ^ Suc k"
  shows "exponent x \<le> int k"
proof (cases "1 \<le> x")
  case True
  from assms have "\<lfloor>x\<rfloor> < 2 ^ Suc k" by (simp add: floor_less_iff)
  with True have "nat \<lfloor>x\<rfloor> < 2 ^ Suc k" by (simp add: nat_less_iff)
  then have "bitlen (nat \<lfloor>x\<rfloor>) \<le> Suc k" by (rule bitlen_le)
  with True show ?thesis by (simp add: exponent_def)
next
  case False
  then show ?thesis by (simp add: exponent_def)
qed

lemma exponent_ge:
  assumes "2 ^ k \<le> x"
  shows "int k \<le> exponent x"
proof -
  from assms have one: "1 \<le> x" using one_le_power[of "2::real" k] by linarith
  from assms have "2 ^ k \<le> \<lfloor>x\<rfloor>" by (simp add: le_floor_iff)
  then have "2 ^ k \<le> nat \<lfloor>x\<rfloor>" by (simp add: le_nat_iff)
  then have "k < bitlen (nat \<lfloor>x\<rfloor>)" by (rule bitlen_gt)
  with one show ?thesis by (simp add: exponent_def)
qed

lemma ulp_pos: "0 < ulp x"
  by (simp add: ulp_def)

lemma nearest_double_ge:
  assumes "x \<noteq> 0" and "ulp x * of_int K \<le> x"
  shows "ulp x * of_int K \<le> nearest_double x"
proof -
  from assms(2) ulp_pos[of x] have "of_int K \<le> x / ulp x"
    by (simp add: pos_le_divide_eq mult.commute)
  then have "K \<le> round_half_even (x / ulp x)" by (rule round_half_even_ge)
  then have "ulp x * of_int K \<le> ulp x * of_int (round_half_even (x / ulp x))"
    using ulp_pos[of x] by simp
  with assms(1) show ?thesis by (simp add: nearest_double_def)
qed

lemma nearest_double_le:
  assumes "x \<noteq> 0" and "x < ulp x * of_int K + ulp x / 2"
  shows "nearest_double x \<le> ulp x * of_int K"
proof -
  have "ulp x * of_int K + ulp x / 2 = (of_int K + 1 / 2) * ulp x"
    by (simp add: algebra_simps)
  with assms(2) ulp_pos[of x] have "x / ulp x < of_int K + 1 / 2"
    by (simp add: pos_divide_less_eq)
  then have "round_half_even (x / ulp x) \<le> K" by (rule round_half_even_le)
  then have "ulp x * of_int (round_half_even (x / ulp x)) \<le> ulp x * of_int K"
    using ulp_pos[of x] by simp
  with assms(1) show ?thesis by (simp add: nearest_double_def)
qed

text \<open>Below \<open>2 ^ 20\<close> every multiple of \<open>2 ^ -33\<close> is a multiple of the unit in the last place.\<close>

lemma ulp_divides:
  assumes "x < 2 ^ 20"
  shows "\<exists>K. of_int M / 2 ^ 33 = ulp x * of_int K"
proof -
  define j where "j = max (exponent x - 52) (- 1074)"
  from assms have "exponent x \<le> int 19" by (intro exponent_le) simp
  then have j: "j \<le> - 33" by (simp add: j_def)
  define n where "n = nat (- 33 - j)"
  from j have "- 33 = j + int n" by (simp add: n_def)
  then have "(2::real) powi (- 33) = 2 powi (j + int n)" by (rule arg_cong)
  also have "\<dots> = 2 powi j * 2 powi (int n)"
    by (rule power_int_add) simp
  also have "\<dots> = ulp x * 2 ^ n"
    by (simp only: ulp_def j_def power_int_of_nat)
  finally have e: "(2::real) powi (- 33) = ulp x * 2 ^ n" .
  have "(2::real) powi (- 33) = 1 / 2 ^ 33"
    by (simp add: power_int_minus_divide)
  with e have "1 / 2 ^ 33 = ulp x * 2 ^ n" by simp
  then have "of_int M / 2 ^ 33 = of_int M * (ulp x * 2 ^ n)" by simp
  also have "\<dots> = ulp x * of_int (M * 2 ^ n)" by simp
  finally show ?thesis by blast
qed

lemma exponent_binade_19:
  assumes "2 ^ 19 \<le> x" and "x < 2 ^ 20"
  shows "ulp x = 1 / 2 ^ 33"
proof -
  from assms(1) have "int 19 \<le> exponent x" by (rule exponent_ge)
  moreover from assms(2) have "exponent x \<le> int 19" by (intro exponent_le) simp
  ultimately have "exponent x = 19" by simp
  then have "ulp x = 2 powi (- 33)" by (simp add: ulp_def)
  then show ?thesis by (simp add: power_int_minus_divide)
qed

lemma exponent_binade_minus_1:
  assumes "1 / 2 \<le> x" and "x < 1"
  shows "ulp x = 1 / 2 ^ 53"
proof -
  from assms have "1 < 1 / x" "1 / x \<le> 2" by (simp_all add: field_simps)
  then have "\<lceil>1 / x\<rceil> = 2" by (simp add: ceiling_eq_iff)
  with assms(2) have "exponent x = - 1"
    by (simp add: exponent_def bitlen.simps)
  then have "ulp x = 2 powi (- 53)" by (simp add: ulp_def)
  then show ?thesis by (simp add: power_int_minus_divide)
qed

text \<open>The largest double below 1.\<close>

lemma double_below_one:
  assumes "0 \<le> r" and "r < 1" and "to_double r = r"
  shows "r \<le> 1 - 1 / 2 ^ 53"
proof (cases "1 / 2 \<le> r")
  case False
  then show ?thesis by simp
next
  case True
  then have u: "ulp r = 1 / 2 ^ 53" using assms(2) by (rule exponent_binade_minus_1)
  define N where "N = round_half_even (r / ulp r)"
  from True assms(3) have "r = ulp r * of_int N"
    by (simp add: to_double_def nearest_double_def N_def split: if_splits)
  then have "r = (1 / 2 ^ 53) * of_int N" by (simp only: u)
  then have r: "r = of_int N / 2 ^ 53" by simp
  with assms(2) have "of_int N < (2 ^ 53 :: real)" by (simp add: field_simps)
  then have "N < 2 ^ 53" by simp
  then have "N \<le> 2 ^ 53 - 1" by simp
  then have "(of_int N :: real) \<le> of_int (2 ^ 53 - 1)" by (simp only: of_int_le_iff)
  then have "(of_int N :: real) \<le> 2 ^ 53 - 1" by simp
  then show ?thesis by (simp add: r field_simps)
qed

lemma product_bounds:
  assumes "0 \<le> r" and "r < 1" and "to_double r = r"
  shows "0 \<le> to_double (r * 900000)" and "to_double (r * 900000) \<le> 900000 - 1 / 2 ^ 33"
proof -
  let ?x = "r * 900000"
  have x0: "0 \<le> ?x" using assms(1) by simp
  from double_below_one[OF assms] have "?x \<le> (1 - 1 / 2 ^ 53) * 900000" by simp
  then have xu: "?x \<le> 900000 - 900000 / 2 ^ 53" by (simp add: algebra_simps)
  then have x20: "?x < 2 ^ 20" by simp
  have td: "to_double ?x = nearest_double ?x" using x0 by (simp add: to_double_def)
  show "0 \<le> to_double ?x"
  proof (cases "?x = 0")
    case True
    then show ?thesis by (simp add: to_double_def nearest_double_def)
  next
    case False
    have "ulp ?x * of_int 0 \<le> ?x" using x0 by simp
    from nearest_double_ge[OF False this] show ?thesis by (simp add: td)
  qed
  show "to_double ?x \<le> 900000 - 1 / 2 ^ 33"
  proof (cases "?x = 0")
    case True
    then show ?thesis by (simp add: to_double_def nearest_double_def)
  next
    case False
    obtain K where K: "of_int (900000 * 2 ^ 33 - 1) / 2 ^ 33 = ulp ?x * of_int K"
      using ulp_divides[OF x20] by blast
    have b: "ulp ?x * of_int K = 900000 - 1 / 2 ^ 33"
      unfolding K[symmetric] by (simp add: field_simps)
    have "?x < ulp ?x * of_int K + ulp ?x / 2"
    proof (cases "?x \<le> 900000 - 1 / 2 ^ 33")
      case True
      with ulp_pos[of ?x] show ?thesis unfolding b by linarith
    next
      case False
      then have "2 ^ 19 \<le> ?x" by simp
      then have "ulp ?x = 1 / 2 ^ 33" using x20 by (rule exponent_binade_19)
      with xu show ?thesis unfolding b by simp
    qed
    from nearest_double_le[OF False this] show ?thesis by (simp add: td b)
  qed
qed

lemma sum_bounds:
  assumes "0 \<le> p" and "p \<le> 900000 - 1 / 2 ^ 33"
  shows "100000 \<le> to_double (p + 100000)" and "to_double (p + 100000) < 1000000"
proof -
  let ?x = "p + 100000"
  have x0: "0 < ?x" using assms(1) by simp
  have x20: "?x < 2 ^ 20" using assms(2) by simp
  have td: "to_double ?x = nearest_double ?x" using x0 by (simp add: to_double_def)
  from x0 have nz: "?x \<noteq> 0" by simp
  obtain K where K: "of_int (100000 * 2 ^ 33) / 2 ^ 33 = ulp ?x * of_int K"
    using ulp_divides[OF x20] by blast
  have "ulp ?x * of_int K = 100000" unfolding K[symmetric] by simp
  with nearest_double_ge[OF nz, of K] assms(1) show "100000 \<le> to_double ?x"
    by (simp add: td)
  obtain L where L: "of_int (1000000 * 2 ^ 33 - 1) / 2 ^ 33 = ulp ?x * of_int L"
    using ulp_divides[OF x20] by blast
  have b: "ulp ?x * of_int L = 1000000 - 1 / 2 ^ 33"
    unfolding L[symmetric] by (simp add: field_simps)
  have "?x < ulp ?x * of_int L + ulp ?x / 2"
    using assms(2) ulp_pos[of ?x] unfolding b by linarith
  from nearest_double_le[OF nz this] have "to_double ?x \<le> 1000000 - 1 / 2 ^ 33"
    by (simp add: td b)
  then show "to_double ?x < 1000000" by simp
qed

lemma random_suffix_bounds:
  assumes "0 \<le> r" and "r < 1" and "to_double r = r"
  shows "100000 \<le> \<lfloor>to_double (to_double (r * 900000) + 100000)\<rfloor>"
    and "\<lfloor>to_double (to_double (r * 900000) + 100000)\<rfloor> < 1000000"
proof -
  note s = sum_bounds[OF product_bounds[OF assms]]
  from s(1) show "100000 \<le> \<lfloor>to_double (to_double (r * 900000) + 100000)\<rfloor>"
    by (simp add: le_floor_iff)
  from s(2) show "\<lfloor>to_double (to_double (r * 900000) + 100000)\<rfloor> < 1000000"
    by (simp add: floor_less_iff)
qed

lemma six_digits:
  fixes z :: int
  assumes "100000 \<le> z" and "z < 1000000"
  shows "length (number_to_string z) = 6" and "list_all is_digit (number_to_string z)"
proof -
  from assms have s: "number_to_string z = digits (nat z)"
    by (simp add: number_to_string_def)
  from assms have "10 ^ 5 \<le> nat z" "nat z < 10 ^ Suc 5" by simp_all
  then have "length (digits (nat z)) = Suc 5" by (rule digits_length)
  then show "length (number_to_string z) = 6" by (simp add: s)
  show "list_all is_digit (number_to_string z)" by (simp add: s digits_all_digits)
qed

lemma generated_reference_matches:
  assumes "0 \<le> rnd" and "rnd < 1" and "to_double rnd = rnd"
  shows "matches_reference_pattern
           (''RCC-2025-''
            @ number_to_string \<lfloor>to_double (to_double (rnd * 900000) + 100000)\<rfloor>)"
  unfolding matches_reference_pattern_def
  using six_digits[OF random_suffix_bounds[OF assms]] by simp

subsection \<open>What each method does to the tables\<close>

lemma initializeDatabase_cases:
  assumes "initializeDatabase uuid now s = Inr s'"
  shows "applications s' = applications s \<and> connection s'
       \<and> (if select_admins_by_username ''admin'' s = []
            then uuid \<notin> arow_id ` set (admins s)
               \<and> admins s' = admins s @
                   [\<lparr>arow_id = uuid, arow_username = ''admin'', arow_password = ''admin123'',
                     arow_full_name = ''System Administrator'',
                     arow_created_at = to_datetime now\<rparr>]
            else admins s' = admins s)"
  using assms
  by (auto simp: initializeDatabase_def createTables_def createDefaultAdmin_def Let_def
      insert_admin_def select_admins_by_username_def split: if_splits)

lemma initializeDatabase_seeded:
  assumes "select_admins_by_username ''admin'' s \<noteq> []"
  shows "initializeDatabase uuid now s = Inr (s\<lparr>connection := True\<rparr>)"
  using assms
  by (simp add: initializeDatabase_def createTables_def createDefaultAdmin_def Let_def
      select_admins_by_username_def)

lemma createAdmin_cases:
  assumes "createAdmin uuid now ia s = Inr (adm, s')"
  shows "applications s' = applications s \<and> connection s'
       \<and> ia_username ia \<notin> arow_username ` set (admins s)
       \<and> admins s' = admins s @
            [\<lparr>arow_id = uuid, arow_username = ia_username ia, arow_password = ia_password ia,
              arow_full_name = ia_fullName ia, arow_created_at = to_datetime now\<rparr>]"
  using assms
  by (auto simp: createAdmin_def insert_admin_def Let_def split: if_splits)

lemma updateApplicationStatus_rows:
  assumes "updateApplicationStatus now i st rb an re s = Inr (r, s')"
  shows "s' = s
       \<or> (admins s' = admins s \<and> connection s' = connection s
          \<and> (\<exists>f. applications s' =
                   map (\<lambda>row. if row_id row = i then f row else row) (applications s)
                 \<and> (\<forall>row. row_reference_number (f row) = row_reference_number row
                        \<and> row_status (f row) = st
                        \<and> ((st = Approved \<or> st = Rejected) \<longrightarrow>
                              row_completed_date (f row) \<noteq> None))))"
  using updateApplicationStatus_cases[OF assms]
proof
  assume "r = None \<and> s' = s \<and> getApplication i s = Inr None"
  then show ?thesis by simp
next
  assume "\<exists>a. getApplication i s = Inr (Some a) \<and> r \<noteq> None"
  then obtain a where a: "getApplication i s = Inr (Some a)" by blast
  let ?f = "\<lambda>r. r\<lparr>row_status := st,
                   row_reviewed_by := or_string rb (reviewedBy a),
                   row_admin_notes := or_string an (adminNotes a),
                   row_reason := (case re of None \<Rightarrow> reason a
                                  | Some v \<Rightarrow> if v \<noteq> [] then v else reason a),
                   row_review_date := Some (to_datetime (or_date (reviewDate a) now)),
                   row_completed_date :=
                     map_option to_datetime
                       (if st = Approved \<or> st = Rejected then Some now
                        else completedDate a)\<rparr>"
  from assms have s': "s' = update_applications i ?f s"
    unfolding updateApplicationStatus_found[OF a] by simp
  have "\<exists>f. applications s' =
               map (\<lambda>row. if row_id row = i then f row else row) (applications s)
             \<and> (\<forall>row. row_reference_number (f row) = row_reference_number row
                    \<and> row_status (f row) = st
                    \<and> ((st = Approved \<or> st = Rejected) \<longrightarrow>
                          row_completed_date (f row) \<noteq> None))"
    by (rule exI[of _ ?f]) (simp add: s' update_applications_def)
  then show ?thesis by (simp add: s')
qed

lemma attachDocuments_rows:
  assumes "attachDocuments now i docs s = Inr (r, s')"
  shows "s' = s
       \<or> (admins s' = admins s \<and> connection s' = connection s
          \<and> (\<exists>f. applications s' =
                   map (\<lambda>row. if row_id row = i then f row else row) (applications s)
                 \<and> (\<forall>row. row_reference_number (f row) = row_reference_number row
                        \<and> row_status (f row) = Under_review)))"
  using attachDocuments_cases[OF assms]
proof
  assume "r = None \<and> s' = s \<and> getApplication i s = Inr None"
  then show ?thesis by simp
next
  assume "\<exists>a. getApplication i s = Inr (Some a) \<and> r \<noteq> None"
  then obtain a where a: "getApplication i s = Inr (Some a)" by blast
  let ?f = "\<lambda>r. r\<lparr>row_documents := Some (documents a @ docs),
                   row_uploaded_documents := Some (documents a @ docs),
                   row_status := Under_review,
                   row_review_date := Some (to_datetime now)\<rparr>"
  from assms have s': "s' = update_applications i ?f s"
    unfolding attachDocuments_found[OF a] by simp
  have "\<exists>f. applications s' =
               map (\<lambda>row. if row_id row = i then f row else row) (applications s)
             \<and> (\<forall>row. row_reference_number (f row) = row_reference_number row
                    \<and> row_status (f row) = Under_review)"
    by (rule exI[of _ ?f]) (simp add: s' update_applications_def)
  then show ?thesis by (simp add: s')
qed

lemma map_reference_update:
  assumes "\<forall>row. row_reference_number (f row) = row_reference_number row"
  shows "map row_reference_number (map (\<lambda>row. if row_id row = i then f row else row) rows)
         = map row_reference_number rows"
  using assms by (induction rows) auto

lemma updateApplicationStatus_references:
  assumes "updateApplicationStatus now i st rb an re s = Inr (r, s')"
  shows "reference_numbers s' = reference_numbers s"
  using updateApplicationStatus_rows[OF assms]
  by (auto simp: reference_numbers_def map_reference_update)

lemma attachDocuments_references:
  assumes "attachDocuments now i docs s = Inr (r, s')"
  shows "reference_numbers s' = reference_numbers s"
  using attachDocuments_rows[OF assms]
  by (auto simp: reference_numbers_def map_reference_update)

lemma createApplication_references:
  assumes "createApplication uuid rnd now ins s = Inr (a, s')"
  shows "reference_numbers s' = reference_numbers s @ [referenceNumber a]"
    and "referenceNumber a \<notin> set (reference_numbers s)"
    and "referenceNumber a =
            ''RCC-2025-''
            @ number_to_string \<lfloor>to_double (to_double (rnd * 900000) + 100000)\<rfloor>"
proof -
  note c = assms[unfolded createApplication_Inr_iff]
  from c have "applications s' = applications s @
          [\<lparr>row_id = app_id a, row_reference_number = referenceNumber a,
            row_full_name = fullName a, row_id_number = idNumber a,
            row_phone_number = phoneNumber a, row_email = email a,
            row_property_address = propertyAddress a, row_stand_number = standNumber a,
            row_property_type = propertyType a, row_reason = reason a,
            row_documents = Some (documents a),
            row_uploaded_documents = Some (uploadedDocuments a),
            row_status = status a,
            row_submitted_date = to_datetime (submittedDate a),
            row_review_date = map_option to_datetime (reviewDate a),
            row_completed_date = map_option to_datetime (completedDate a),
            row_admin_notes = adminNotes a, row_reviewed_by = reviewedBy a\<rparr>]"
    by simp
  then show "reference_numbers s' = reference_numbers s @ [referenceNumber a]"
    by (simp add: reference_numbers_def)
  from c have "referenceNumber a \<notin> row_reference_number ` set (applications s)"
    by blast
  then show "referenceNumber a \<notin> set (reference_numbers s)"
    by (simp add: reference_numbers_def)
  from c have a: "a = \<lparr>app_id = uuid,
           referenceNumber =
             ''RCC-2025-''
             @ number_to_string \<lfloor>to_double (to_double (rnd * 900000) + 100000)\<rfloor>,
           fullName = i_fullName ins, idNumber = i_idNumber ins,
           phoneNumber = i_phoneNumber ins, email = or_string (i_email ins) None,
           propertyAddress = i_propertyAddress ins, standNumber = i_standNumber ins,
           propertyType = i_propertyType ins, reason = i_reason ins,
           documents = or_empty (i_documents ins),
           uploadedDocuments = or_empty (i_uploadedDocuments ins),
           status = Submitted, submittedDate = now, reviewDate = None,
           completedDate = None, adminNotes = None, reviewedBy = None\<rparr>"
    by blast
  show "referenceNumber a =
            ''RCC-2025-''
            @ number_to_string \<lfloor>to_double (to_double (rnd * 900000) + 100000)\<rfloor>"
    by (subst a) (simp only: Application.select_convs)
qed

subsection \<open>Invariants of the reachable states\<close>

lemma reachable_references:
  assumes "reachable s"
  shows "distinct (reference_numbers s)
       \<and> list_all matches_reference_pattern (reference_numbers s)"
  using assms
proof (induction rule: reachable.induct)
  case reachable_empty
  show ?case by (simp add: reference_numbers_def empty_store_def)
next
  case (reachable_initialize s uuid now s')
  from initializeDatabase_cases[OF reachable_initialize.hyps(2)]
  have "reference_numbers s' = reference_numbers s" by (simp add: reference_numbers_def)
  with reachable_initialize.IH show ?case by simp
next
  case (reachable_create s rnd uuid now ins a s')
  note c = createApplication_references[OF reachable_create.hyps(5)]
  from generated_reference_matches[OF reachable_create.hyps(2,3,4)] c(3)
  have "matches_reference_pattern (referenceNumber a)" by simp
  with reachable_create.IH c(1,2) show ?case by simp
next
  case (reachable_update s now i st rb an re r s')
  with updateApplicationStatus_references show ?case by simp
next
  case (reachable_attach s now i docs r s')
  with attachDocuments_references show ?case by simp
next
  case (reachable_createAdmin s uuid now ia adm s')
  from createAdmin_cases[OF reachable_createAdmin.hyps(2)]
  have "reference_numbers s' = reference_numbers s" by (simp add: reference_numbers_def)
  with reachable_createAdmin.IH show ?case by simp
qed

subsection \<open>The completion date\<close>

lemma completed_if_decided_row:
  "completed_if_decided (mapRowToApplication row) \<longleftrightarrow>
     (row_status row = Approved \<or> row_status row = Rejected \<longrightarrow> row_completed_date row \<noteq> None)"
  by (simp add: completed_if_decided_def decided_def mapRowToApplication_def)

lemma store_completed_if_decided_iff:
  "store_completed_if_decided s \<longleftrightarrow>
     (\<forall>row \<in> set (applications s).
        row_status row = Approved \<or> row_status row = Rejected \<longrightarrow> row_completed_date row \<noteq> None)"
  by (simp add: store_completed_if_decided_def stored_applications_def list_all_iff
      completed_if_decided_row)

lemma createApplication_keeps_completed:
  assumes "store_completed_if_decided s"
    and "createApplication uuid rnd now ins s = Inr (a, s')"
  shows "store_completed_if_decided s'"
proof -
  note c = assms(2)[unfolded createApplication_Inr_iff]
  from c have st: "status a = Submitted" by simp
  from c have "applications s' = applications s @
          [\<lparr>row_id = app_id a, row_reference_number = referenceNumber a,
            row_full_name = fullName a, row_id_number = idNumber a,
            row_phone_number = phoneNumber a, row_email = email a,
            row_property_address = propertyAddress a, row_stand_number = standNumber a,
            row_property_type = propertyType a, row_reason = reason a,
            row_documents = Some (documents a),
            row_uploaded_documents = Some (uploadedDocuments a),
            row_status = status a,
            row_submitted_date = to_datetime (submittedDate a),
            row_review_date = map_option to_datetime (reviewDate a),
            row_completed_date = map_option to_datetime (completedDate a),
            row_admin_notes = adminNotes a, row_reviewed_by = reviewedBy a\<rparr>]"
    by simp
  with assms(1) st show ?thesis
    by (auto simp: store_completed_if_decided_iff)
qed

lemma updateApplicationStatus_keeps_completed:
  assumes "store_completed_if_decided s"
    and "updateApplicationStatus now i st rb an re s = Inr (r, s')"
  shows "store_completed_if_decided s'"
  using updateApplicationStatus_rows[OF assms(2)] assms(1)
  by (auto simp: store_completed_if_decided_iff)

lemma attachDocuments_keeps_completed:
  assumes "store_completed_if_decided s"
    and "attachDocuments now i docs s = Inr (r, s')"
  shows "store_completed_if_decided s'"
  using attachDocuments_rows[OF assms(2)] assms(1)
  by (auto simp: store_completed_if_decided_iff)

lemma reachable_completed_if_decided:
  assumes "reachable s"
  shows "store_completed_if_decided s"
  using assms
proof (induction rule: reachable.induct)
  case reachable_empty
  show ?case by (simp add: store_completed_if_decided_iff empty_store_def)
next
  case (reachable_initialize s uuid now s')
  from initializeDatabase_cases[OF reachable_initialize.hyps(2)] reachable_initialize.IH
  show ?case by (simp add: store_completed_if_decided_iff)
next
  case (reachable_create s rnd uuid now ins a s')
  then show ?case using createApplication_keeps_completed by blast
next
  case (reachable_update s now i st rb an re r s')
  then show ?case using updateApplicationStatus_keeps_completed by blast
next
  case (reachable_attach s now i docs r s')
  then show ?case using attachDocuments_keeps_completed by blast
next
  case (reachable_createAdmin s uuid now ia adm s')
  from createAdmin_cases[OF reachable_createAdmin.hyps(2)] reachable_createAdmin.IH
  show ?case by (simp add: store_completed_if_decided_iff)
qed

subsection \<open>The default administrator\<close>

lemma filter_distinct_key:
  assumes "distinct (map f xs)"
  shows "length (filter (\<lambda>x. f x = k) xs) \<le> 1"
  using assms
proof (induction xs)
  case Nil
  show ?case by simp
next
  case (Cons x xs)
  show ?case
  proof (cases "f x = k")
    case True
    with Cons.prems have "k \<notin> f ` set xs" by simp
    then have "\<forall>y \<in> set xs. f y \<noteq> k" by blast
    then have "filter (\<lambda>x. f x = k) xs = []" by (simp add: filter_empty_conv)
    with True show ?thesis by simp
  next
    case False
    with Cons show ?thesis by simp
  qed
qed

lemma initializeDatabase_one_admin:
  assumes "distinct (map arow_username (admins s))"
    and "initializeDatabase uuid now s = Inr s'"
  shows "length (select_admins_by_username ''admin'' s') = 1"
    and "distinct (map arow_username (admins s'))"
proof -
  note c = initializeDatabase_cases[OF assms(2)]
  show "length (select_admins_by_username ''admin'' s') = 1"
  proof (cases "select_admins_by_username ''admin'' s = []")
    case True
    with c show ?thesis by (simp add: select_admins_by_username_def)
  next
    case False
    with c have "select_admins_by_username ''admin'' s' = select_admins_by_username ''admin'' s"
      by (simp add: select_admins_by_username_def)
    moreover have "length (select_admins_by_username ''admin'' s) \<le> 1"
      unfolding select_admins_by_username_def using assms(1) by (rule filter_distinct_key)
    ultimately show ?thesis
      using False by (cases "select_admins_by_username ''admin'' s") auto
  qed
  show "distinct (map arow_username (admins s'))"
  proof (cases "select_admins_by_username ''admin'' s = []")
    case True
    then have "''admin'' \<notin> arow_username ` set (admins s)"
      by (auto simp: select_admins_by_username_def filter_empty_conv)
    with True c assms(1) show ?thesis by simp
  next
    case False
    with c assms(1) show ?thesis by simp
  qed
qed

lemma initializations_seeded:
  assumes "select_admins_by_username ''admin'' s \<noteq> []"
  shows "\<exists>s'. initializations es s = Inr s' \<and> admins s' = admins s
              \<and> applications s' = applications s"
  using assms
proof (induction es arbitrary: s)
  case Nil
  show ?case by simp
next
  case (Cons e es)
  obtain uuid now where e: "e = (uuid, now)" by (cases e)
  have i: "initializeDatabase uuid now s = Inr (s\<lparr>connection := True\<rparr>)"
    using Cons.prems by (rule initializeDatabase_seeded)
  have "select_admins_by_username ''admin'' (s\<lparr>connection := True\<rparr>) \<noteq> []"
    using Cons.prems by (simp add: select_admins_by_username_def)
  from Cons.IH[OF this] show ?case by (simp add: e i)
qed

lemma initializations_one_admin:
  assumes "distinct (map arow_username (admins s))"
    and "initializations (e # es) s = Inr s'"
  shows "length (select_admins_by_username ''admin'' s') = 1"
proof -
  obtain uuid now where e: "e = (uuid, now)" by (cases e)
  from assms(2) obtain s1 where i: "initializeDatabase uuid now s = Inr s1"
    and r: "initializations es s1 = Inr s'"
    by (auto simp: e split: sum.splits)
  from initializeDatabase_one_admin(1)[OF assms(1) i]
  have one: "length (select_admins_by_username ''admin'' s1) = 1" .
  then have "select_admins_by_username ''admin'' s1 \<noteq> []" by auto
  from initializations_seeded[OF this, of es] r have "admins s' = admins s1" by simp
  with one show ?thesis by (simp add: select_admins_by_username_def)
qed

lemma initializeDatabase_empty_store:
  "\<exists>s1. initializeDatabase uuid now empty_store = Inr s1
        \<and> length (select_admins_by_username ''admin'' s1) = 1"
  by (simp add: initializeDatabase_def createTables_def createDefaultAdmin_def
      select_admins_by_username_def insert_admin_def empty_store_def)

lemma reachable_distinct_usernames:
  assumes "reachable s"
  shows "distinct (map arow_username (admins s))"
  using assms
proof (induction rule: reachable.induct)
  case reachable_empty
  show ?case by (simp add: empty_store_def)
next
  case (reachable_initialize s uuid now s')
  then show ?case using initializeDatabase_one_admin(2) by blast
next
  case (reachable_create s rnd uuid now ins a s')
  from reachable_create.hyps(5)[unfolded createApplication_Inr_iff]
  have "admins s' = admins s" by simp
  with reachable_create.IH show ?case by simp
next
  case (reachable_update s now i st rb an re r s')
  from updateApplicationStatus_rows[OF reachable_update.hyps(2)]
  have "admins s' = admins s" by auto
  with reachable_update.IH show ?case by simp
next
  case (reachable_attach s now i docs r s')
  from attachDocuments_rows[OF reachable_attach.hyps(2)]
  have "admins s' = admins s" by auto
  with reachable_attach.IH show ?case by simp
next
  case (reachable_createAdmin s uuid now ia adm s')
  from createAdmin_cases[OF reachable_createAdmin.hyps(2)] reachable_createAdmin.IH
  show ?case by simp
qed

section \<open>The claims\<close>

subsection \<open>C1\<close>

text \<open>
  Claim C1 as it is stated, "the completion date is set if and only if the status is
  approved or rejected, in every reachable state", fails: in the sample run the
  application is approved at second 3 and set back to under review at second 4; the update
  keeps the completion date, so the last state is reachable and holds an application
  under review with a completion date.
\<close>

theorem completed_iff_decided_counterexample:
  "reachable st_approved
   \<and> store_completed_iff_decided st_approved
   \<and> updateApplicationStatus 4000 ''app-1'' Under_review None None None st_approved
       = Inr (Some app_reopened, st_reopened)
   \<and> reachable st_reopened
   \<and> status app_reopened = Under_review
   \<and> completedDate app_reopened = Some 3000
   \<and> \<not> store_completed_iff_decided st_reopened"
proof -
  have "store_completed_iff_decided st_approved"
    by (simp add: store_completed_iff_decided_def stored_applications_def st_approved_def
        st_init_def row_approved_def row_created_def mapRowToApplication_def
        completed_iff_decided_def decided_def)
  moreover have "\<not> store_completed_iff_decided st_reopened"
    by (simp add: store_completed_iff_decided_def stored_applications_def st_reopened_def
        st_init_def row_approved_def row_created_def mapRowToApplication_def
        completed_iff_decided_def decided_def)
  moreover have "status app_reopened = Under_review" "completedDate app_reopened = Some 3000"
    by (simp_all add: app_reopened_def app_approved_def)
  ultimately show ?thesis
    using reachable_st_approved reachable_st_reopened run_reopen by simp
qed

text \<open>
  Claim C1, amended. In every reachable state of the store, every application whose
  status is approved or rejected has a completion date. \<open>createApplication\<close>,
  \<open>updateApplicationStatus\<close> and \<open>attachDocuments\<close> each keep this property, from any
  state that has it.
\<close>

theorem completed_if_decided_invariant:
  "(reachable s \<longrightarrow> store_completed_if_decided s)
   \<and> (store_completed_if_decided s \<and> createApplication uuid rnd now1 ins s = Inr (a, s1)
        \<longrightarrow> store_completed_if_decided s1)
   \<and> (store_completed_if_decided s
        \<and> updateApplicationStatus now2 i st rb an re s = Inr (r2, s2)
        \<longrightarrow> store_completed_if_decided s2)
   \<and> (store_completed_if_decided s \<and> attachDocuments now3 j docs s = Inr (r3, s3)
        \<longrightarrow> store_completed_if_decided s3)"
proof (intro conjI impI)
  assume "reachable s"
  then show "store_completed_if_decided s" by (rule reachable_completed_if_decided)
next
  assume "store_completed_if_decided s \<and> createApplication uuid rnd now1 ins s = Inr (a, s1)"
  then show "store_completed_if_decided s1"
    using createApplication_keeps_completed by blast
next
  assume "store_completed_if_decided s
        \<and> updateApplicationStatus now2 i st rb an re s = Inr (r2, s2)"
  then show "store_completed_if_decided s2"
    using updateApplicationStatus_keeps_completed by blast
next
  assume "store_completed_if_decided s \<and> attachDocuments now3 j docs s = Inr (r3, s3)"
  then show "store_completed_if_decided s3"
    using attachDocuments_keeps_completed by blast
qed

text \<open>
  An instance: the state after the creation, and the states that one more creation, the
  approval and the attachment of a document lead to.
\<close>

theorem completed_if_decided_invariant_witness:
  "reachable st_created
   \<and> store_completed_if_decided st_created
   \<and> createApplication ''app-2'' (1 / 4) 5000 demo_input st_created
       = Inr (app_second, st_second)
   \<and> store_completed_if_decided st_second
   \<and> updateApplicationStatus 3000 ''app-1'' Approved (Some ''clerk'') None None st_created
       = Inr (Some app_approved, st_approved)
   \<and> store_completed_if_decided st_approved
   \<and> attachDocuments 3000 ''app-1'' [''doc1''] st_created
       = Inr (Some app_attached, st_attached)
   \<and> store_completed_if_decided st_attached"
  using completed_if_decided_invariant[where s = st_created and a = app_second
      and ?s1.0 = st_second and uuid = "''app-2''" and rnd = "1 / 4" and ?now1.0 = 5000
      and ins = demo_input and ?now2.0 = 3000 and i = "''app-1''" and st = Approved
      and rb = "Some ''clerk''" and an = None and re = None and ?r2.0 = "Some app_approved"
      and ?s2.0 = st_approved and ?now3.0 = 3000 and j = "''app-1''" and docs = "[''doc1'']"
      and ?r3.0 = "Some app_attached" and ?s3.0 = st_attached]
    reachable_st_created run_create_second run_approve run_attach
  by auto

subsection \<open>C2\<close>

text \<open>
  Claim C2 as it is stated, "the documents are appended to the end of the uploaded
  documents", fails: the sample application is created with the document \<open>deed\<close> and
  without uploaded documents; after \<open>doc1\<close> is attached its uploaded documents are
  \<open>deed, doc1\<close>, not \<open>doc1\<close>. After \<open>doc2\<close> is attached as well its documents are
  \<open>deed, doc1, doc2\<close>: the two calls add to the documents the application had.
\<close>

theorem attachDocuments_appends_to_uploaded_counterexample:
  "getApplication ''app-1'' st_created = Inr (Some app_created)
   \<and> attachDocuments 3000 ''app-1'' [''doc1''] st_created
       = Inr (Some app_attached, st_attached)
   \<and> uploadedDocuments app_created = []
   \<and> uploadedDocuments app_attached = [''deed'', ''doc1'']
   \<and> uploadedDocuments app_attached \<noteq> uploadedDocuments app_created @ [''doc1'']
   \<and> attachDocuments 4000 ''app-1'' [''doc2''] st_attached
       = Inr (Some app_attached_twice, st_attached_twice)
   \<and> documents app_attached_twice = [''deed'', ''doc1'', ''doc2'']
   \<and> documents app_attached_twice \<noteq> [''doc1'', ''doc2'']"
  using get_created run_attach run_attach_again
  by (simp add: app_attached_twice_def app_attached_def app_created_def)

text \<open>
  Claim C2, amended. For an application in the store, \<open>attachDocuments\<close> returns a record
  in which the documents are the documents before followed by the given ones, the uploaded
  documents are that same sequence (the documents before followed by the given ones), the
  status is under review and the review date is the time of the call, whatever it was
  before; the row it has written reads back as that record, with the review date rounded
  to the second. A second call appends after the first: the documents are then the
  documents before the first call, followed by those of the first call, followed by those
  of the second.
\<close>

theorem attachDocuments_effect:
  assumes "getApplication i s = Inr (Some a)"
  shows "\<exists>a1 s1 a2 s2.
           attachDocuments now1 i docs1 s = Inr (Some a1, s1)
         \<and> getApplication i s1 = Inr (Some (as_stored a1))
         \<and> documents a1 = documents a @ docs1
         \<and> uploadedDocuments a1 = documents a @ docs1
         \<and> status a1 = Under_review
         \<and> reviewDate a1 = Some now1
         \<and> attachDocuments now2 i docs2 s1 = Inr (Some a2, s2)
         \<and> getApplication i s2 = Inr (Some (as_stored a2))
         \<and> documents a2 = documents a @ docs1 @ docs2
         \<and> uploadedDocuments a2 = documents a @ docs1 @ docs2
         \<and> status a2 = Under_review
         \<and> reviewDate a2 = Some now2"
proof -
  let ?a1 = "a\<lparr>documents := documents a @ docs1, uploadedDocuments := documents a @ docs1,
                status := Under_review, reviewDate := Some now1\<rparr>"
  obtain s1 where r1: "attachDocuments now1 i docs1 s = Inr (Some ?a1, s1)"
    using attachDocuments_found[OF assms] by blast
  have g1: "getApplication i s1 = Inr (Some (as_stored ?a1))"
    using attachDocuments_persisted[OF assms r1] by simp
  let ?b1 = "as_stored ?a1"
  have d1: "documents ?b1 = documents a @ docs1" by (simp add: as_stored_def)
  let ?a2 = "?b1\<lparr>documents := documents ?b1 @ docs2, uploadedDocuments := documents ?b1 @ docs2,
                status := Under_review, reviewDate := Some now2\<rparr>"
  obtain s2 where r2: "attachDocuments now2 i docs2 s1 = Inr (Some ?a2, s2)"
    using attachDocuments_found[OF g1] by blast
  have g2: "getApplication i s2 = Inr (Some (as_stored ?a2))"
    using attachDocuments_persisted[OF g1 r2] by simp
  show ?thesis
    apply (rule exI[of _ ?a1], rule exI[of _ s1], rule exI[of _ ?a2], rule exI[of _ s2])
    using r1 g1 r2 g2 d1 by simp
qed

text \<open>
  An instance: \<open>doc1\<close> and then \<open>doc2\<close> attached to the sample application.
\<close>

theorem attachDocuments_effect_witness:
  "getApplication ''app-1'' st_created = Inr (Some app_created)
   \<and> (\<exists>a1 s1 a2 s2.
           attachDocuments 3000 ''app-1'' [''doc1''] st_created = Inr (Some a1, s1)
         \<and> documents a1 = [''deed'', ''doc1'']
         \<and> uploadedDocuments a1 = [''deed'', ''doc1'']
         \<and> status a1 = Under_review
         \<and> reviewDate a1 = Some 3000
         \<and> attachDocuments 4000 ''app-1'' [''doc2''] s1 = Inr (Some a2, s2)
         \<and> documents a2 = [''deed'', ''doc1'', ''doc2'']
         \<and> status a2 = Under_review
         \<and> reviewDate a2 = Some 4000)"
proof -
  have d: "documents app_created = [''deed'']"
    by (simp add: app_created_def)
  from attachDocuments_effect[OF get_created, of 3000 "[''doc1'']" 4000 "[''doc2'']"]
  show ?thesis using get_created d by auto
qed

subsection \<open>C3\<close>

text \<open>
  Claim C3 as it is stated, "no later call of \<open>updateApplicationStatus\<close> changes a
  completion date that is set", fails: the sample application is approved at second 3,
  and a second approval at second 4 moves its completion date from 3000 to 4000.
\<close>

theorem completedDate_overwritten_counterexample:
  "reachable st_approved
   \<and> getApplication ''app-1'' st_approved = Inr (Some app_approved)
   \<and> completedDate app_approved = Some 3000
   \<and> updateApplicationStatus 4000 ''app-1'' Approved None None None st_approved
       = Inr (Some app_reapproved, st_reapproved)
   \<and> completedDate app_reapproved = Some 4000"
  using reachable_st_approved get_approved run_reapprove
  by (simp add: app_reapproved_def app_approved_def)

text \<open>
  Claim C3, amended. For an application in the store, \<open>updateApplicationStatus\<close> with the
  status approved or rejected sets the completion date to the time of the call, also when
  one is set already; with the status submitted or under review it leaves the completion
  date as it is. \<open>attachDocuments\<close> leaves it as it is, and a call on one id leaves the
  applications of the other ids as they are. In any state, \<open>createApplication\<close> returns a
  record without completion date.
\<close>

theorem completedDate_steps:
  "(getApplication i s = Inr (Some a) \<longrightarrow>
      (\<exists>a' s'. updateApplicationStatus now i st rb an re s = Inr (Some a', s')
          \<and> getApplication i s' = Inr (Some (as_stored a'))
          \<and> completedDate a' =
              (if st = Approved \<or> st = Rejected then Some now else completedDate a)
          \<and> (\<forall>j. j \<noteq> i \<longrightarrow> getApplication j s' = getApplication j s))
    \<and> (\<exists>a' s'. attachDocuments now i docs s = Inr (Some a', s')
          \<and> getApplication i s' = Inr (Some (as_stored a'))
          \<and> completedDate a' = completedDate a
          \<and> (\<forall>j. j \<noteq> i \<longrightarrow> getApplication j s' = getApplication j s)))
   \<and> (\<forall>uuid rnd ins a0 s0.
         createApplication uuid rnd now ins s = Inr (a0, s0) \<longrightarrow> completedDate a0 = None)"
proof (intro conjI impI)
  assume g: "getApplication i s = Inr (Some a)"
  obtain a1 s1 where r1: "updateApplicationStatus now i st rb an re s = Inr (Some a1, s1)"
    and c1: "completedDate a1 =
               (if st = Approved \<or> st = Rejected then Some now else completedDate a)"
    using updateApplicationStatus_found[OF g, of now st rb an re] by simp
  have g1: "getApplication i s1 = Inr (Some (as_stored a1))"
    using updateApplicationStatus_persisted[OF g r1] by simp
  have o1: "\<forall>j. j \<noteq> i \<longrightarrow> getApplication j s1 = getApplication j s"
    using updateApplicationStatus_other[OF r1] by blast
  show "\<exists>a' s'. updateApplicationStatus now i st rb an re s = Inr (Some a', s')
          \<and> getApplication i s' = Inr (Some (as_stored a'))
          \<and> completedDate a' =
              (if st = Approved \<or> st = Rejected then Some now else completedDate a)
          \<and> (\<forall>j. j \<noteq> i \<longrightarrow> getApplication j s' = getApplication j s)"
    by (rule exI[of _ a1], rule exI[of _ s1]) (intro conjI r1 c1 g1 o1)
  obtain a2 s2 where r2: "attachDocuments now i docs s = Inr (Some a2, s2)"
    and c2: "completedDate a2 = completedDate a"
    using attachDocuments_found[OF g, of now docs] by simp
  have g2: "getApplication i s2 = Inr (Some (as_stored a2))"
    using attachDocuments_persisted[OF g r2] by simp
  have o2: "\<forall>j. j \<noteq> i \<longrightarrow> getApplication j s2 = getApplication j s"
    using attachDocuments_other[OF r2] by blast
  show "\<exists>a' s'. attachDocuments now i docs s = Inr (Some a', s')
          \<and> getApplication i s' = Inr (Some (as_stored a'))
          \<and> completedDate a' = completedDate a
          \<and> (\<forall>j. j \<noteq> i \<longrightarrow> getApplication j s' = getApplication j s)"
    by (rule exI[of _ a2], rule exI[of _ s2]) (intro conjI r2 c2 g2 o2)
next
  show "\<forall>uuid rnd ins a0 s0.
         createApplication uuid rnd now ins s = Inr (a0, s0) \<longrightarrow> completedDate a0 = None"
    by (auto simp: createApplication_Inr_iff)
qed

text \<open>
  An instance: the approved sample application is rejected, set back to submitted, and
  given a document, each at second 4; and the creation of the sample application.
\<close>

theorem completedDate_steps_witness:
  "getApplication ''app-1'' st_approved = Inr (Some app_approved)
   \<and> completedDate app_approved = Some 3000
   \<and> (\<exists>a' s'. updateApplicationStatus 4000 ''app-1'' Rejected None None None st_approved
                  = Inr (Some a', s')
         \<and> completedDate a' = Some 4000)
   \<and> (\<exists>a' s'. updateApplicationStatus 4000 ''app-1'' Submitted None None None st_approved
                  = Inr (Some a', s')
         \<and> completedDate a' = Some 3000)
   \<and> (\<exists>a' s'. attachDocuments 4000 ''app-1'' [''doc1''] st_approved = Inr (Some a', s')
         \<and> completedDate a' = Some 3000)
   \<and> createApplication ''app-1'' (1 / 2) 2000 demo_input st_init
       = Inr (app_created, st_created)
   \<and> completedDate app_created = None"
proof -
  have c: "completedDate app_approved = Some 3000"
    by (simp add: app_approved_def)
  note rej = completedDate_steps[of "''app-1''" st_approved app_approved 4000 Rejected
      None None None "[''doc1'']", THEN conjunct1, THEN mp, OF get_approved]
  note sub = completedDate_steps[of "''app-1''" st_approved app_approved 4000 Submitted
      None None None "[''doc1'']", THEN conjunct1, THEN mp, OF get_approved]
  note cre = completedDate_steps[of "''app-1''" st_init app_created 2000 Submitted
      None None None "[]", THEN conjunct2]
  have 1: "\<exists>a' s'. updateApplicationStatus 4000 ''app-1'' Rejected None None None
                  st_approved = Inr (Some a', s') \<and> completedDate a' = Some 4000"
    using rej[THEN conjunct1] by auto
  have 2: "\<exists>a' s'. updateApplicationStatus 4000 ''app-1'' Submitted None None None
                  st_approved = Inr (Some a', s') \<and> completedDate a' = Some 3000"
    using sub[THEN conjunct1] c by auto
  have 3: "\<exists>a' s'. attachDocuments 4000 ''app-1'' [''doc1''] st_approved
                  = Inr (Some a', s') \<and> completedDate a' = Some 3000"
    using rej[THEN conjunct2] c by auto
  have 4: "completedDate app_created = None"
    using cre run_create by blast
  from get_approved c 1 2 3 4 run_create show ?thesis
    by (intro conjI)
qed

subsection \<open>C4\<close>

text \<open>
  Claim C4. In a reachable state, with \<open>Math.random()\<close> returning a double \<open>r\<close> with
  \<open>0 \<le> r < 1\<close>, the record \<open>createApplication\<close> returns has a reference number that matches
  \<open>RCC-2025-\d{6}\<close> and that no application of the store had before; the reference
  numbers of the store after the call are distinct, and each matches the pattern. (A draw
  that repeats a reference number is refused by the datastore: the call throws and
  writes nothing.)
\<close>

theorem referenceNumber_pattern_and_unique:
  assumes "reachable s" and "0 \<le> rnd" and "rnd < 1" and "to_double rnd = rnd"
    and "createApplication uuid rnd now ins s = Inr (a, s')"
  shows "matches_reference_pattern (referenceNumber a)
       \<and> referenceNumber a \<notin> set (reference_numbers s)
       \<and> reference_numbers s' = reference_numbers s @ [referenceNumber a]
       \<and> distinct (reference_numbers s')
       \<and> list_all matches_reference_pattern (reference_numbers s')"
proof -
  note c = createApplication_references[OF assms(5)]
  from generated_reference_matches[OF assms(2,3,4)] c(3)
  have "matches_reference_pattern (referenceNumber a)" by simp
  moreover have "reachable s'" using reachable_create[OF assms] .
  ultimately show ?thesis using c(1,2) reachable_references[of s'] by simp
qed

text \<open>
  An instance: the creation of a second application, in the state that holds the sample
  application.
\<close>

theorem referenceNumber_pattern_and_unique_witness:
  "reachable st_created \<and> (0::real) \<le> 1 / 4 \<and> (1::real) / 4 < 1
   \<and> to_double (1 / 4) = 1 / 4
   \<and> createApplication ''app-2'' (1 / 4) 5000 demo_input st_created
       = Inr (app_second, st_second)
   \<and> reference_numbers st_created = [''RCC-2025-550000'']
   \<and> referenceNumber app_second = ''RCC-2025-325000''
   \<and> matches_reference_pattern ''RCC-2025-325000''
   \<and> ''RCC-2025-325000'' \<notin> set (reference_numbers st_created)
   \<and> reference_numbers st_second = [''RCC-2025-550000'', ''RCC-2025-325000'']
   \<and> distinct (reference_numbers st_second)
   \<and> list_all matches_reference_pattern (reference_numbers st_second)"
proof -
  have z: "(0::real) \<le> 1 / 4" "(1::real) / 4 < 1" by simp_all
  have r: "referenceNumber app_second = ''RCC-2025-325000''"
    by (simp add: app_second_def)
  have n: "reference_numbers st_created = [''RCC-2025-550000'']"
    by (simp add: reference_numbers_def st_created_def st_init_def row_created_def)
  have m: "reference_numbers st_second = [''RCC-2025-550000'', ''RCC-2025-325000'']"
    by (simp add: reference_numbers_def st_second_def st_init_def row_second_def
        row_created_def)
  note t = referenceNumber_pattern_and_unique[OF reachable_st_created z quarter_is_double
      run_create_second, unfolded r]
  from t have "matches_reference_pattern ''RCC-2025-325000''"
    and "''RCC-2025-325000'' \<notin> set (reference_numbers st_created)"
    and "distinct (reference_numbers st_second)"
    and "list_all matches_reference_pattern (reference_numbers st_second)"
    by blast+
  with reachable_st_created z quarter_is_double run_create_second r n m
  show ?thesis by blast
qed

subsection \<open>C5\<close>

text \<open>
  Claim C5 as it is stated, "the record returned by the second call has the same review
  date as the record returned by the first call", fails: the first call returns its own
  \<open>Date\<close>, with its milliseconds, and the second call returns what the \<open>DATETIME\<close> column
  kept of it. The sample application is put under review at the \<open>Date\<close> 3700, which is
  the review date the call returns; the next call returns the review date 4000.
\<close>

theorem reviewDate_rounded_counterexample:
  "reachable st_created
   \<and> getApplication ''app-1'' st_created = Inr (Some app_created)
   \<and> updateApplicationStatus 3700 ''app-1'' Under_review None None None st_created
       = Inr (Some app_reviewed, st_reviewed)
   \<and> reviewDate app_reviewed = Some 3700
   \<and> updateApplicationStatus 5000 ''app-1'' Approved None None None st_reviewed
       = Inr (Some app_reviewed_approved, st_reviewed_approved)
   \<and> reviewDate app_reviewed_approved = Some 4000
   \<and> reviewDate app_reviewed_approved \<noteq> reviewDate app_reviewed"
  using reachable_st_created get_created run_review run_review_approve
  by (simp add: app_reviewed_def app_reviewed_approved_def)

text \<open>
  Claim C5, amended. For an application in the store, the first of two calls of
  \<open>updateApplicationStatus\<close> in succession returns the review date the application had, or
  the time of the call when it had none; the second call returns that review date as the
  \<open>DATETIME\<close> column keeps it, rounded to the second. The two are the same when the
  application had a review date before the first call, and when the time of the first call
  is a whole second. After the first call, no sequence of further calls of
  \<open>updateApplicationStatus\<close>, on this or on other ids, changes the review date the store
  holds.
\<close>

theorem reviewDate_kept_as_stored:
  assumes "getApplication i s = Inr (Some a)"
  shows "\<exists>a1 s1 a2 s2.
           updateApplicationStatus now1 i st1 rb1 an1 re1 s = Inr (Some a1, s1)
         \<and> updateApplicationStatus now2 i st2 rb2 an2 re2 s1 = Inr (Some a2, s2)
         \<and> reviewDate a1 = Some (or_date (reviewDate a) now1)
         \<and> reviewDate a2 = map_option stored_date (reviewDate a1)
         \<and> (reviewDate a \<noteq> None \<longrightarrow> reviewDate a2 = reviewDate a1)
         \<and> (stored_date now1 = now1 \<longrightarrow> reviewDate a2 = reviewDate a1)
         \<and> (\<forall>s3. updates s1 s3 \<longrightarrow>
               (\<exists>a3. getApplication i s3 = Inr (Some a3) \<and> reviewDate a3 = reviewDate a2))"
proof -
  obtain a1 s1 where r1: "updateApplicationStatus now1 i st1 rb1 an1 re1 s = Inr (Some a1, s1)"
    and d1: "reviewDate a1 = Some (or_date (reviewDate a) now1)"
    using updateApplicationStatus_found[OF assms, of now1 st1 rb1 an1 re1] by simp
  have g1: "getApplication i s1 = Inr (Some (as_stored a1))"
    using updateApplicationStatus_persisted[OF assms r1] by simp
  have b1: "reviewDate (as_stored a1) = Some (stored_date (or_date (reviewDate a) now1))"
    by (simp add: as_stored_def d1)
  obtain a2 s2 where r2: "updateApplicationStatus now2 i st2 rb2 an2 re2 s1 = Inr (Some a2, s2)"
    and d2: "reviewDate a2 = Some (or_date (reviewDate (as_stored a1)) now2)"
    using updateApplicationStatus_found[OF g1, of now2 st2 rb2 an2 re2] by simp
  from d2 b1 have e: "reviewDate a2 = Some (stored_date (or_date (reviewDate a) now1))"
    by (simp add: or_date_def)
  with d1 have m: "reviewDate a2 = map_option stored_date (reviewDate a1)" by simp
  have k: "reviewDate a \<noteq> None \<longrightarrow> reviewDate a2 = reviewDate a1"
  proof
    assume "reviewDate a \<noteq> None"
    then obtain d where d: "reviewDate a = Some d" by blast
    have "map_option stored_date (reviewDate a) = reviewDate a"
      using arg_cong[OF getApplication_as_stored[OF assms], of reviewDate]
      by (simp add: as_stored_def)
    with d have "stored_date d = d" by simp
    with d d1 e show "reviewDate a2 = reviewDate a1" by (simp add: or_date_def)
  qed
  have w: "stored_date now1 = now1 \<longrightarrow> reviewDate a2 = reviewDate a1"
  proof (cases "reviewDate a")
    case None
    with d1 e show ?thesis by (simp add: or_date_def)
  next
    case (Some d)
    with k show ?thesis by simp
  qed
  have l: "\<forall>s3. updates s1 s3 \<longrightarrow>
               (\<exists>a3. getApplication i s3 = Inr (Some a3) \<and> reviewDate a3 = reviewDate a2)"
    using updates_keep_reviewDate[OF _ g1 b1] e by simp
  from r1 r2 d1 m k w l show ?thesis by blast
qed

text \<open>
  An instance: the sample application is put under review at the \<open>Date\<close> 3700 and approved
  at second 5.
\<close>

theorem reviewDate_kept_as_stored_witness:
  "getApplication ''app-1'' st_created = Inr (Some app_created)
   \<and> reviewDate app_created = None
   \<and> stored_date 3700 = 4000
   \<and> (\<exists>a1 s1 a2 s2.
           updateApplicationStatus 3700 ''app-1'' Under_review None None None st_created
             = Inr (Some a1, s1)
         \<and> updateApplicationStatus 5000 ''app-1'' Approved None None None s1 = Inr (Some a2, s2)
         \<and> reviewDate a1 = Some 3700
         \<and> reviewDate a2 = Some 4000
         \<and> updates s1 s2
         \<and> (\<exists>a3. getApplication ''app-1'' s2 = Inr (Some a3) \<and> reviewDate a3 = Some 4000))"
proof -
  have n: "reviewDate app_created = None" by (simp add: app_created_def)
  have sd: "stored_date 3700 = 4000" by (simp add: stored_date_def eval_date)
  from reviewDate_kept_as_stored[OF get_created,
      of 3700 Under_review None None None 5000 Approved None None None]
  obtain a1 s1 a2 s2 where
    r1: "updateApplicationStatus 3700 ''app-1'' Under_review None None None st_created
           = Inr (Some a1, s1)"
    and r2: "updateApplicationStatus 5000 ''app-1'' Approved None None None s1 = Inr (Some a2, s2)"
    and d1: "reviewDate a1 = Some 3700" and d2: "reviewDate a2 = Some 4000"
    and l: "\<forall>s3. updates s1 s3 \<longrightarrow>
               (\<exists>a3. getApplication ''app-1'' s3 = Inr (Some a3) \<and> reviewDate a3 = reviewDate a2)"
    using n sd by (auto simp: or_date_def)
  have u: "updates s1 s2" using updates_step[OF updates_none r2] .
  with l d2 have "\<exists>a3. getApplication ''app-1'' s2 = Inr (Some a3) \<and> reviewDate a3 = Some 4000"
    by simp
  with get_created n sd r1 r2 d1 d2 u show ?thesis by auto
qed

subsection \<open>C6\<close>

text \<open>
  Claim C6. For an application in the store, \<open>updateApplicationStatus\<close> returns a record
  that the row it has written reads back as, dates rounded to the second. A field among
  \<open>reviewedBy\<close>, \<open>adminNotes\<close> and \<open>reason\<close> whose argument is left out keeps its value; a
  field that changes has an argument, and takes its value; an argument that is not the
  empty string becomes the value of its field.
\<close>

theorem updateApplicationStatus_optional_fields:
  assumes "getApplication i s = Inr (Some a)"
  shows "\<exists>a' s'. updateApplicationStatus now i st rb an re s = Inr (Some a', s')
           \<and> getApplication i s' = Inr (Some (as_stored a'))
           \<and> reviewedBy (as_stored a') = reviewedBy a'
           \<and> adminNotes (as_stored a') = adminNotes a'
           \<and> reason (as_stored a') = reason a'
           \<and> (rb = None \<longrightarrow> reviewedBy a' = reviewedBy a)
           \<and> (an = None \<longrightarrow> adminNotes a' = adminNotes a)
           \<and> (re = None \<longrightarrow> reason a' = reason a)
           \<and> (reviewedBy a' \<noteq> reviewedBy a \<longrightarrow> rb \<noteq> None \<and> reviewedBy a' = rb)
           \<and> (adminNotes a' \<noteq> adminNotes a \<longrightarrow> an \<noteq> None \<and> adminNotes a' = an)
           \<and> (reason a' \<noteq> reason a \<longrightarrow> re = Some (reason a'))
           \<and> (\<forall>v. rb = Some v \<and> v \<noteq> [] \<longrightarrow> reviewedBy a' = Some v)
           \<and> (\<forall>v. an = Some v \<and> v \<noteq> [] \<longrightarrow> adminNotes a' = Some v)
           \<and> (\<forall>v. re = Some v \<and> v \<noteq> [] \<longrightarrow> reason a' = v)"
proof -
  obtain a' s' where r: "updateApplicationStatus now i st rb an re s = Inr (Some a', s')"
    and a': "reviewedBy a' = or_string rb (reviewedBy a)"
      "adminNotes a' = or_string an (adminNotes a)"
      "reason a' = (case re of None \<Rightarrow> reason a | Some v \<Rightarrow> if v \<noteq> [] then v else reason a)"
    using updateApplicationStatus_found[OF assms, of now st rb an re] by simp
  have g: "getApplication i s' = Inr (Some (as_stored a'))"
    using updateApplicationStatus_persisted[OF assms r] by simp
  have t: "reviewedBy (as_stored a') = reviewedBy a'" "adminNotes (as_stored a') = adminNotes a'"
    "reason (as_stored a') = reason a'"
    by (simp_all add: as_stored_def)
  have "(rb = None \<longrightarrow> reviewedBy a' = reviewedBy a)
      \<and> (reviewedBy a' \<noteq> reviewedBy a \<longrightarrow> rb \<noteq> None \<and> reviewedBy a' = rb)
      \<and> (\<forall>v. rb = Some v \<and> v \<noteq> [] \<longrightarrow> reviewedBy a' = Some v)"
    using a'(1) by (auto simp: or_string_def truthy_def split: option.splits if_splits)
  moreover have "(an = None \<longrightarrow> adminNotes a' = adminNotes a)
      \<and> (adminNotes a' \<noteq> adminNotes a \<longrightarrow> an \<noteq> None \<and> adminNotes a' = an)
      \<and> (\<forall>v. an = Some v \<and> v \<noteq> [] \<longrightarrow> adminNotes a' = Some v)"
    using a'(2) by (auto simp: or_string_def truthy_def split: option.splits if_splits)
  moreover have "(re = None \<longrightarrow> reason a' = reason a)
      \<and> (reason a' \<noteq> reason a \<longrightarrow> re = Some (reason a'))
      \<and> (\<forall>v. re = Some v \<and> v \<noteq> [] \<longrightarrow> reason a' = v)"
    using a'(3) by (auto split: option.splits if_splits)
  ultimately show ?thesis using r g t by blast
qed

text \<open>
  An instance: an update of the approved sample application that gives the notes only.
\<close>

theorem updateApplicationStatus_optional_fields_witness:
  "getApplication ''app-1'' st_approved = Inr (Some app_approved)
   \<and> reviewedBy app_approved = Some ''clerk''
   \<and> adminNotes app_approved = None
   \<and> reason app_approved = ''sale''
   \<and> (\<exists>a' s'. updateApplicationStatus 4000 ''app-1'' Under_review None (Some ''call back'') None
                  st_approved = Inr (Some a', s')
         \<and> getApplication ''app-1'' s' = Inr (Some (as_stored a'))
         \<and> reviewedBy a' = Some ''clerk''
         \<and> adminNotes a' = Some ''call back''
         \<and> reason a' = ''sale'')"
proof -
  have f: "reviewedBy app_approved = Some ''clerk''" "adminNotes app_approved = None"
    "reason app_approved = ''sale''"
    by (simp_all add: app_approved_def app_created_def)
  from updateApplicationStatus_optional_fields[OF get_approved,
      of 4000 Under_review None "Some ''call back''" None]
  show ?thesis using get_approved f by auto
qed

subsection \<open>C7\<close>

text \<open>
  Claim C7. The record \<open>createApplication\<close> returns has the status submitted, no review
  date, no completion date, no notes and no reviewer, and its submission date is the time
  of the call. Its documents and its uploaded documents are the empty sequence when the
  input has none, and the ones of the input otherwise. \<open>getApplication\<close> then finds it
  under the new id, with the submission date rounded to the second.
\<close>

theorem createApplication_initial_fields:
  assumes "createApplication uuid rnd now ins s = Inr (a, s')"
  shows "status a = Submitted \<and> reviewDate a = None \<and> completedDate a = None
       \<and> adminNotes a = None \<and> reviewedBy a = None \<and> submittedDate a = now
       \<and> (i_documents ins = None \<longrightarrow> documents a = [])
       \<and> (i_uploadedDocuments ins = None \<longrightarrow> uploadedDocuments a = [])
       \<and> (\<forall>ds. i_documents ins = Some ds \<longrightarrow> documents a = ds)
       \<and> (\<forall>ds. i_uploadedDocuments ins = Some ds \<longrightarrow> uploadedDocuments a = ds)
       \<and> getApplication uuid s' = Inr (Some (as_stored a))"
proof -
  note c = assms[unfolded createApplication_Inr_iff]
  from c have a: "status a = Submitted" "reviewDate a = None" "completedDate a = None"
    "adminNotes a = None" "reviewedBy a = None" "submittedDate a = now"
    "documents a = or_empty (i_documents ins)"
    "uploadedDocuments a = or_empty (i_uploadedDocuments ins)" "app_id a = uuid"
    by simp_all
  from c have fresh: "filter (\<lambda>r. row_id r = uuid) (applications s) = []"
    by (auto simp: filter_empty_conv)
  have readback: "mapRowToApplication
           \<lparr>row_id = app_id b, row_reference_number = referenceNumber b,
            row_full_name = fullName b, row_id_number = idNumber b,
            row_phone_number = phoneNumber b, row_email = email b,
            row_property_address = propertyAddress b, row_stand_number = standNumber b,
            row_property_type = propertyType b, row_reason = reason b,
            row_documents = Some (documents b),
            row_uploaded_documents = Some (uploadedDocuments b),
            row_status = status b,
            row_submitted_date = to_datetime (submittedDate b),
            row_review_date = map_option to_datetime (reviewDate b),
            row_completed_date = map_option to_datetime (completedDate b),
            row_admin_notes = adminNotes b, row_reviewed_by = reviewedBy b\<rparr> = as_stored b"
    for b :: Application
    by (cases b)
      (simp add: mapRowToApplication_def or_empty_def as_stored_def stored_date_def[abs_def]
        option.map_comp comp_def)
  from c have "connection s'" by simp
  moreover from c fresh have "select_applications_by_id uuid s' =
      [\<lparr>row_id = app_id a, row_reference_number = referenceNumber a,
            row_full_name = fullName a, row_id_number = idNumber a,
            row_phone_number = phoneNumber a, row_email = email a,
            row_property_address = propertyAddress a, row_stand_number = standNumber a,
            row_property_type = propertyType a, row_reason = reason a,
            row_documents = Some (documents a),
            row_uploaded_documents = Some (uploadedDocuments a),
            row_status = status a,
            row_submitted_date = to_datetime (submittedDate a),
            row_review_date = map_option to_datetime (reviewDate a),
            row_completed_date = map_option to_datetime (completedDate a),
            row_admin_notes = adminNotes a, row_reviewed_by = reviewedBy a\<rparr>]"
    using a(9) by (simp add: select_applications_by_id_def)
  ultimately have g: "getApplication uuid s' = Inr (Some (as_stored a))"
    by (simp add: getApplication_def readback)
  from a g show ?thesis by (simp add: or_empty_def)
qed

text \<open>
  An instance: the creation of the sample application.
\<close>

theorem createApplication_initial_fields_witness:
  "createApplication ''app-1'' (1 / 2) 2000 demo_input st_init = Inr (app_created, st_created)
   \<and> i_uploadedDocuments demo_input = None
   \<and> i_documents demo_input = Some [''deed'']
   \<and> status app_created = Submitted \<and> reviewDate app_created = None
   \<and> completedDate app_created = None \<and> adminNotes app_created = None
   \<and> reviewedBy app_created = None \<and> submittedDate app_created = 2000
   \<and> uploadedDocuments app_created = []
   \<and> documents app_created = [''deed'']
   \<and> getApplication ''app-1'' st_created = Inr (Some (as_stored app_created))"
proof -
  have i: "i_uploadedDocuments demo_input = None" "i_documents demo_input = Some [''deed'']"
    by (simp_all add: demo_input_def)
  from createApplication_initial_fields[OF run_create] i run_create
  show ?thesis by simp
qed

subsection \<open>C8\<close>




subsection \<open>C9\<close>

text \<open>
  Claim C9. One or more initialisations in a row, on a datastore without rows, all
  return, and leave exactly one administrator with the username \<open>admin\<close>. The same
  count holds from any state whose usernames are distinct (the column is \<open>UNIQUE\<close>)
  when the initialisations return. An initialisation on a state that has that
  administrator inserts nothing: it sets the connection and leaves both tables as they
  are.
\<close>

theorem default_admin_seeded_once:
  "(\<exists>s1. initializations (e # es) empty_store = Inr s1
          \<and> length (select_admins_by_username ''admin'' s1) = 1)
   \<and> (distinct (map arow_username (admins s)) \<and> initializations (e # es) s = Inr s'
        \<longrightarrow> length (select_admins_by_username ''admin'' s') = 1)
   \<and> (select_admins_by_username ''admin'' s \<noteq> []
        \<longrightarrow> initializeDatabase uuid now s = Inr (s\<lparr>connection := True\<rparr>))"
proof (intro conjI impI)
  obtain u n where e: "e = (u, n)" by (cases e)
  obtain s0 where i: "initializeDatabase u n empty_store = Inr s0"
    and one: "length (select_admins_by_username ''admin'' s0) = 1"
    using initializeDatabase_empty_store by blast
  from one have "select_admins_by_username ''admin'' s0 \<noteq> []" by auto
  from initializations_seeded[OF this, of es] obtain s1
    where r: "initializations es s0 = Inr s1" and a: "admins s1 = admins s0" by blast
  from i r have "initializations (e # es) empty_store = Inr s1" by (simp add: e)
  moreover from one a have "length (select_admins_by_username ''admin'' s1) = 1"
    by (simp add: select_admins_by_username_def)
  ultimately show "\<exists>s1. initializations (e # es) empty_store = Inr s1
          \<and> length (select_admins_by_username ''admin'' s1) = 1" by blast
next
  assume "distinct (map arow_username (admins s)) \<and> initializations (e # es) s = Inr s'"
  then show "length (select_admins_by_username ''admin'' s') = 1"
    using initializations_one_admin by blast
next
  assume "select_admins_by_username ''admin'' s \<noteq> []"
  then show "initializeDatabase uuid now s = Inr (s\<lparr>connection := True\<rparr>)"
    by (rule initializeDatabase_seeded)
qed

text \<open>
  An instance: two initialisations, from the datastore without rows and from the
  state after the first one.
\<close>

theorem default_admin_seeded_once_witness:
  "initializations [(''admin-1'', 1000), (''admin-2'', 5000)] empty_store = Inr st_init
   \<and> admins st_init = [demo_admin_row]
   \<and> length (select_admins_by_username ''admin'' st_init) = 1
   \<and> distinct (map arow_username (admins st_init))
   \<and> initializations [(''admin-1'', 1000), (''admin-2'', 5000)] st_init = Inr st_init
   \<and> select_admins_by_username ''admin'' st_init \<noteq> []
   \<and> initializeDatabase ''admin-2'' 5000 st_init = Inr st_init"
proof -
  have d: "distinct (map arow_username (admins st_init))" "admins st_init = [demo_admin_row]"
    and c: "st_init\<lparr>connection := True\<rparr> = st_init"
    and n: "select_admins_by_username ''admin'' st_init \<noteq> []"
    by (simp_all add: st_init_def select_admins_by_username_def demo_admin_row_def)
  have i: "initializeDatabase ''admin-2'' 5000 st_init = Inr st_init"
    using initializeDatabase_seeded[OF n, of "''admin-2''" 5000] c by simp
  have j: "initializeDatabase ''admin-1'' 1000 st_init = Inr st_init"
    using initializeDatabase_seeded[OF n, of "''admin-1''" 1000] c by simp
  have r0: "initializations [(''admin-1'', 1000), (''admin-2'', 5000)] empty_store = Inr st_init"
    using run_initialize i by simp
  have r1: "initializations [(''admin-1'', 1000), (''admin-2'', 5000)] st_init = Inr st_init"
    using i j by simp
  from default_admin_seeded_once[where e = "(''admin-1'', 1000)" and es = "[(''admin-2'', 5000)]"
      and s = st_init and s' = st_init and uuid = "''admin-2''" and now = 5000]
  show ?thesis using d c n r0 r1 by simp
qed

subsection \<open>C10\<close>

text \<open>
  Claim C10. For an application in the store, \<open>attachDocuments\<close> returns a record in
  which the documents and the uploaded documents are the same sequence: the documents
  before the call followed by the given ones. What the uploaded documents held before the
  call does not enter it. The row it has written reads back as that record, with the
  review date rounded to the second.
\<close>

theorem attachDocuments_uploaded_equals_documents:
  assumes "getApplication i s = Inr (Some a)"
  shows "\<exists>a' s'. attachDocuments now i docs s = Inr (Some a', s')
           \<and> getApplication i s' = Inr (Some (as_stored a'))
           \<and> documents a' = documents a @ docs
           \<and> uploadedDocuments a' = documents a @ docs
           \<and> uploadedDocuments a' = documents a'"
proof -
  let ?a' = "a\<lparr>documents := documents a @ docs, uploadedDocuments := documents a @ docs,
                status := Under_review, reviewDate := Some now\<rparr>"
  obtain s' where r: "attachDocuments now i docs s = Inr (Some ?a', s')"
    using attachDocuments_found[OF assms] by blast
  from attachDocuments_persisted[OF assms r]
  have "getApplication i s' = Inr (Some (as_stored ?a'))" by simp
  with r show ?thesis by auto
qed

text \<open>
  An instance: the sample application, whose uploaded documents differ from its
  documents before the call.
\<close>

theorem attachDocuments_uploaded_equals_documents_witness:
  "getApplication ''app-1'' st_created = Inr (Some app_created)
   \<and> uploadedDocuments app_created \<noteq> documents app_created
   \<and> (\<exists>a' s'. attachDocuments 3000 ''app-1'' [''doc1''] st_created = Inr (Some a', s')
         \<and> getApplication ''app-1'' s' = Inr (Some (as_stored a'))
         \<and> documents a' = [''deed'', ''doc1'']
         \<and> uploadedDocuments a' = [''deed'', ''doc1''])"
proof -
  have d: "documents app_created = [''deed'']" "uploadedDocuments app_created = []"
    by (simp_all add: app_created_def)
  from attachDocuments_uploaded_equals_documents[OF get_created, of 3000 "[''doc1'']"]
  show ?thesis using get_created d by auto
qed

end
